theory Spec2Isabelle
  imports Main "HOL-Library.Word"
begin

section \<open>Strings and the regular expressions of the sshd log parser\<close>

text \<open>
  Go strings are byte sequences; they are modelled as \<open>string\<close> (a list of 8-bit
  characters), so \<open>length\<close> is Go's \<open>len\<close>, \<open>drop n s\<close> is \<open>s[n:]\<close> and
  \<open>take n s\<close> is \<open>s[:n]\<close>.
\<close>

definition HasPrefix :: "string \<Rightarrow> string \<Rightarrow> bool" where
  "HasPrefix s p = (length p \<le> length s \<and> take (length p) s = p)"

definition HasSuffix :: "string \<Rightarrow> string \<Rightarrow> bool" where
  "HasSuffix s p = (length p \<le> length s \<and> drop (length s - length p) s = p)"

text \<open>
  The character classes the four regular expressions of \<open>consumer.go\<close> use, with the
  meaning Go's \<open>regexp/syntax\<close> gives them: \<open>\w\<close>, \<open>\d\<close>, \<open>[[:alnum:]]\<close> and
  \<open>\s\<close> are ASCII-only, \<open>\S\<close> is the complement of \<open>\s\<close>, and \<open>.\<close> is every
  character but the newline.
\<close>

datatype cclass =
    ClsWord           \<comment> \<open>\<open>\w\<close>\<close>
  | ClsNonSpace       \<comment> \<open>\<open>\S\<close>\<close>
  | ClsDigit          \<comment> \<open>\<open>\d\<close>\<close>
  | ClsAlnum          \<comment> \<open>\<open>[[:alnum:]]\<close>\<close>
  | ClsWordSpaceDash  \<comment> \<open>\<open>[\w -]\<close>\<close>
  | ClsSpace          \<comment> \<open>\<open>\s\<close>\<close>
  | ClsAnyNoNL        \<comment> \<open>\<open>.\<close>\<close>

definition is_digit :: "char \<Rightarrow> bool" where
  "is_digit c = (let n = (of_char c :: nat) in 48 \<le> n \<and> n \<le> 57)"

definition is_alnum :: "char \<Rightarrow> bool" where
  "is_alnum c = (let n = (of_char c :: nat) in
     (48 \<le> n \<and> n \<le> 57) \<or> (65 \<le> n \<and> n \<le> 90) \<or> (97 \<le> n \<and> n \<le> 122))"

definition is_word :: "char \<Rightarrow> bool" where
  "is_word c = (is_alnum c \<or> c = CHR ''_'')"

definition is_space :: "char \<Rightarrow> bool" where
  "is_space c = (c = CHR 0x09 \<or> c = CHR 0x0A \<or> c = CHR 0x0C \<or> c = CHR 0x0D \<or> c = CHR '' '')"

fun in_class :: "cclass \<Rightarrow> char \<Rightarrow> bool" where
  "in_class ClsWord c = is_word c"
| "in_class ClsNonSpace c = (\<not> is_space c)"
| "in_class ClsDigit c = is_digit c"
| "in_class ClsAlnum c = is_alnum c"
| "in_class ClsWordSpaceDash c = (is_word c \<or> c = CHR '' '' \<or> c = CHR ''-'')"
| "in_class ClsSpace c = is_space c"
| "in_class ClsAnyNoNL c = (c \<noteq> CHR 0x0A)"

text \<open>
  Every regular expression of the parser is a sequence of literals, greedy repetitions
  \<open>k+\<close> of one character class, and named groups \<open>(?P<name>k+)\<close> around such a
  repetition.
\<close>

datatype item = Lit string | Rep cclass | Cap string cclass

type_synonym regex = "item list"

text \<open>
  Go's \<open>regexp\<close> finds the leftmost match and, among the matches starting there, the one
  a backtracking search finds first; a greedy \<open>+\<close> tries the longest repetition first.
  \<open>first_down f n\<close> tries the repetition counts \<open>n, n - 1, ..., 1\<close> in this order.
  \<open>match_here\<close> matches at the start of its input and returns the groups' texts and the
  input left after the match.

  Go matches code points of the UTF-8 text and the model matches bytes. Every class
  above but \<open>\S\<close> and \<open>.\<close> holds ASCII characters only, every byte of a character
  beyond ASCII is in \<open>\S\<close> and in \<open>.\<close>, and every literal starts with an ASCII
  character, so that both find the same matches.
\<close>

fun first_down :: "(nat \<Rightarrow> 'a option) \<Rightarrow> nat \<Rightarrow> 'a option" where
  "first_down f 0 = None"
| "first_down f (Suc n) = (case f (Suc n) of Some r \<Rightarrow> Some r | None \<Rightarrow> first_down f n)"

definition run_len :: "cclass \<Rightarrow> string \<Rightarrow> nat" where
  "run_len k s = length (takeWhile (in_class k) s)"

fun match_here :: "regex \<Rightarrow> string \<Rightarrow> (string list \<times> string) option" where
  "match_here [] s = Some ([], s)"
| "match_here (Lit l # r) s =
     (if HasPrefix s l then match_here r (drop (length l) s) else None)"
| "match_here (Rep k # r) s =
     first_down (\<lambda>n. match_here r (drop n s)) (run_len k s)"
| "match_here (Cap nm k # r) s =
     first_down (\<lambda>n. case match_here r (drop n s) of
                        None \<Rightarrow> None
                      | Some (gs, rest) \<Rightarrow> Some (take n s # gs, rest)) (run_len k s)"

text \<open>
  The unanchored search: the first start offset (from \<open>k\<close> on) at which the expression
  matches, with the groups and the input left after the match.
\<close>

fun search :: "regex \<Rightarrow> nat \<Rightarrow> string \<Rightarrow> (nat \<times> string list \<times> string) option" where
  "search re k [] =
     (case match_here re [] of None \<Rightarrow> None | Some (gs, rest) \<Rightarrow> Some (k, gs, rest))"
| "search re k (c # s) =
     (case match_here re (c # s) of
        Some (gs, rest) \<Rightarrow> Some (k, gs, rest)
      | None \<Rightarrow> search re (Suc k) s)"

text \<open>
  \<open>FindStringSubmatch\<close> returns the text of the leftmost match followed by the texts of
  its groups, \<open>None\<close> for Go's \<open>nil\<close>. \<open>FindStringIndex\<close> returns the offsets at which
  that match starts and ends.
\<close>

definition FindStringSubmatch :: "regex \<Rightarrow> string \<Rightarrow> string list option" where
  "FindStringSubmatch re s =
     (case search re 0 s of
        None \<Rightarrow> None
      | Some (st, gs, rest) \<Rightarrow> Some (take (length s - st - length rest) (drop st s) # gs))"

definition FindStringIndex :: "regex \<Rightarrow> string \<Rightarrow> (nat \<times> nat) option" where
  "FindStringIndex re s =
     (case search re 0 s of
        None \<Rightarrow> None
      | Some (st, gs, rest) \<Rightarrow> Some (st, length s - length rest))"

fun subexpNames :: "regex \<Rightarrow> string list" where
  "subexpNames [] = []"
| "subexpNames (Cap nm k # r) = nm # subexpNames r"
| "subexpNames (Lit l # r) = subexpNames r"
| "subexpNames (Rep k # r) = subexpNames r"

fun index_from :: "int \<Rightarrow> string \<Rightarrow> string list \<Rightarrow> int" where
  "index_from i nm [] = -1"
| "index_from i nm (x # xs) = (if x = nm then i else index_from (i + 1) nm xs)"

text \<open>\<open>SubexpIndex\<close>: the index of the first group with the name, \<open>-1\<close> when there is none.\<close>

definition SubexpIndex :: "regex \<Rightarrow> string \<Rightarrow> int" where
  "SubexpIndex re nm = index_from 1 nm (subexpNames re)"

definition idxLoginUserName :: string where "idxLoginUserName = ''Username''"
definition idxLoginSource :: string where "idxLoginSource = ''Source''"
definition idxLoginPort :: string where "idxLoginPort = ''Port''"
definition idxLoginAlg :: string where "idxLoginAlg = ''Alg''"
definition idxSSHKeySum :: string where "idxSSHKeySum = ''SSHKeySum''"
definition idxCertUserID :: string where "idxCertUserID = ''UserID''"
definition idxCertSerial :: string where "idxCertSerial = ''Serial''"
definition idxCertCA :: string where "idxCertCA = ''CA''"

definition loginRE :: regex where
  "loginRE =
     [Lit ''Accepted publickey for '', Cap ''Username'' ClsWord, Lit '' from '',
      Cap ''Source'' ClsNonSpace, Lit '' port '', Cap ''Port'' ClsDigit, Lit '' ssh'',
      Rep ClsAlnum, Lit '': '', Cap ''Alg'' ClsWordSpaceDash, Lit '':'',
      Cap ''SSHKeySum'' ClsNonSpace]"

definition certIDRE :: regex where
  "certIDRE =
     [Lit ''ID '', Cap ''UserID'' ClsNonSpace, Rep ClsSpace, Lit ''(serial '',
      Cap ''Serial'' ClsDigit, Lit '')'', Rep ClsSpace, Cap ''CA'' ClsAnyNoNL]"

definition notInAllowUsersRE :: regex where
  "notInAllowUsersRE =
     [Lit ''User '', Cap ''Username'' ClsWord, Lit '' from '', Cap ''Source'' ClsNonSpace,
      Lit '' not allowed because not listed in AllowUsers'']"

definition invalidUserRE :: regex where
  "invalidUserRE =
     [Lit ''Invalid user '', Cap ''Username'' ClsWord, Lit '' from '',
      Cap ''Source'' ClsNonSpace, Lit '' port '', Cap ''Port'' ClsDigit]"

section \<open>Audit events and the sink\<close>

text \<open>
  \<open>error\<close>: an error of a collaborator (\<open>Ext\<close>) or \<open>fmt.Errorf("msg: %w", err)\<close>
  (\<open>Wrap msg err\<close>). A Go \<open>error\<close> result is an \<open>error option\<close>, \<open>None\<close> for \<open>nil\<close>.
\<close>

datatype error = Ext string | Wrap string error

text \<open>
  The fields of \<open>auditevent.EventSource\<close> and \<open>auditevent.AuditEvent\<close> that the
  consumer sets. A Go map is a partial function; \<open>srcExtra\<close> and \<open>Data\<close> are \<open>None\<close>
  where the Go value is \<open>nil\<close>. \<open>Data\<close> holds the map that the JSON text encodes.
  \<open>LoggedAt\<close> is a time in microseconds since the epoch.
\<close>

record EventSource =
  srcType :: string
  srcValue :: string
  srcExtra :: "(string \<rightharpoonup> string) option"

record AuditEvent =
  evType :: string
  LoggedAt :: int
  Source :: EventSource
  Outcome :: string
  Subjects :: "string \<rightharpoonup> string"
  Component :: string
  Target :: "string \<rightharpoonup> string"
  Data :: "(string \<rightharpoonup> string) option"

definition OutcomeSucceeded :: string where "OutcomeSucceeded = ''succeeded''"
definition OutcomeFailed :: string where "OutcomeFailed = ''failed''"

text \<open>
  Modelled from the spec: the constants \<open>common.ActionLoginIdentifier\<close> and
  \<open>common.UnknownUser\<close> are declared in the package \<open>internal/common\<close>, which is not
  among the sources; the spec gives the event type \<open>"UserLogin"\<close> for a login and the
  sentinel \<open>"unknown"\<close>.
\<close>

definition ActionLoginIdentifier :: string where "ActionLoginIdentifier = ''UserLogin''"
definition UnknownUser :: string where "UnknownUser = ''unknown''"

text \<open>
  \<open>auditevent.NewAuditEvent\<close> fills the five fields it is given and stamps the current
  time, which every handler overwrites before the event is written; \<open>WithTarget\<close> and
  \<open>WithData\<close> set one field of the event they are called on.
\<close>

definition NewAuditEvent ::
  "string \<Rightarrow> EventSource \<Rightarrow> string \<Rightarrow> (string \<rightharpoonup> string) \<Rightarrow> string \<Rightarrow> AuditEvent" where
  "NewAuditEvent eventType source outcome subjects component =
     \<lparr>evType = eventType, LoggedAt = 0, Source = source, Outcome = outcome,
      Subjects = subjects, Component = component, Target = Map.empty, Data = None\<rparr>"

definition WithTarget :: "AuditEvent \<Rightarrow> (string \<rightharpoonup> string) \<Rightarrow> AuditEvent" where
  "WithTarget e t = e\<lparr>Target := t\<rparr>"

definition WithData :: "AuditEvent \<Rightarrow> (string \<rightharpoonup> string) \<Rightarrow> AuditEvent" where
  "WithData e d = e\<lparr>Data := Some d\<rparr>"

text \<open>
  \<open>json.Marshal\<close> of a \<open>map[string]string\<close>: it has no error case for this type, and the
  raw message is represented by the map it encodes.
\<close>

definition json_Marshal :: "(string \<rightharpoonup> string) \<Rightarrow> error + (string \<rightharpoonup> string)" where
  "json_Marshal m = Inr m"

text \<open>
  The sink: \<open>w.Write(evt)\<close> of an \<open>auditevent.EventWriter\<close> is a function of the event
  and the sink's state to an error result and the new state.
\<close>

type_synonym 's EventWriter = "AuditEvent \<Rightarrow> 's \<Rightarrow> error option \<times> 's"

text \<open>
  Two sinks for concrete runs: one keeps every event in memory, in the order written, and
  never fails (as the encoder of the repository's tests does); one always fails.
  \<open>recordingWriter\<close> keeps every event passed to \<open>Write\<close> and fails as \<open>fails\<close> says.
\<close>

definition memoryWriter :: "AuditEvent list EventWriter" where
  "memoryWriter evt s = (None, s @ [evt])"

definition brokenWriter :: "AuditEvent list EventWriter" where
  "brokenWriter evt s = (Some (Ext ''sink closed''), s)"

definition recordingWriter :: "(AuditEvent \<Rightarrow> error option) \<Rightarrow> AuditEvent list EventWriter" where
  "recordingWriter fails evt s = (fails evt, s @ [evt])"

section \<open>The sshd log parser (consumer.go)\<close>

definition extraDataWithoutCA :: "string \<Rightarrow> string \<Rightarrow> error + (string \<rightharpoonup> string)" where
  "extraDataWithoutCA alg keySum =
     json_Marshal [idxLoginAlg \<mapsto> alg, idxSSHKeySum \<mapsto> keySum]"

definition extraDataWithCA ::
  "string \<Rightarrow> string \<Rightarrow> string \<Rightarrow> string \<Rightarrow> error + (string \<rightharpoonup> string)" where
  "extraDataWithCA alg keySum certSerial caData =
     json_Marshal [idxLoginAlg \<mapsto> alg, idxSSHKeySum \<mapsto> keySum,
                   idxCertSerial \<mapsto> certSerial, idxCertCA \<mapsto> caData]"

definition extraDataForInvalidCert :: "string \<Rightarrow> error + (string \<rightharpoonup> string)" where
  "extraDataForInvalidCert reason =
     json_Marshal [''error'' \<mapsto> ''certificate invalid'', ''reason'' \<mapsto> reason]"

text \<open>
  The block \<open>if err := w.Write(evt); err != nil { return fmt.Errorf(...) }; return nil\<close>
  that ends every handler.
\<close>

definition writeEvent :: "'s EventWriter \<Rightarrow> AuditEvent \<Rightarrow> 's \<Rightarrow> error option \<times> 's" where
  "writeEvent w evt s =
     (case w evt s of
        (Some err, s') \<Rightarrow> (Some (Wrap ''journaldConsumer: Failed to write event'' err), s')
      | (None, s') \<Rightarrow> (None, s'))"

definition addEventInfoForUnknownUser :: "AuditEvent \<Rightarrow> string \<Rightarrow> string \<Rightarrow> AuditEvent" where
  "addEventInfoForUnknownUser evt alg keySum =
     (let evt1 = evt\<lparr>Subjects := (Subjects evt)(''userID'' \<mapsto> UnknownUser)\<rparr> in
      case extraDataWithoutCA alg keySum of
        Inl ederr \<Rightarrow> evt1
      | Inr ed \<Rightarrow> WithData evt1 ed)"

definition processAcceptPublicKeyEntry ::
  "string \<Rightarrow> string \<Rightarrow> string \<Rightarrow> int \<Rightarrow> string \<Rightarrow> 's EventWriter \<Rightarrow> 's \<Rightarrow> error option \<times> 's" where
  "processAcceptPublicKeyEntry logentry nodename mid when pid w s =
     (case FindStringSubmatch loginRE logentry of
        None \<Rightarrow> (None, s)
      | Some matches \<Rightarrow>
          (let usrIdx = SubexpIndex loginRE idxLoginUserName;
               sourceIdx = SubexpIndex loginRE idxLoginSource;
               portIdx = SubexpIndex loginRE idxLoginPort;
               algIdx = SubexpIndex loginRE idxLoginAlg;
               keyIdx = SubexpIndex loginRE idxSSHKeySum;
               evt0 = WithTarget
                        (NewAuditEvent ActionLoginIdentifier
                           \<lparr>srcType = ''IP'', srcValue = matches ! nat sourceIdx,
                            srcExtra = Some [''port'' \<mapsto> matches ! nat portIdx]\<rparr>
                           OutcomeSucceeded
                           [''loggedAs'' \<mapsto> matches ! nat usrIdx, ''pid'' \<mapsto> pid]
                           ''sshd'')
                        [''host'' \<mapsto> nodename, ''machine-id'' \<mapsto> mid];
               evt = evt0\<lparr>LoggedAt := when\<rparr>
           in if length logentry = length (matches ! 0) then
                writeEvent w
                  (addEventInfoForUnknownUser evt (matches ! nat algIdx) (matches ! nat keyIdx)) s
              else
                (let certIdentifierStringStart = length (matches ! 0) + 1;
                     certIdentifierString = drop certIdentifierStringStart logentry
                 in case FindStringSubmatch certIDRE certIdentifierString of
                      None \<Rightarrow>
                        writeEvent w
                          (addEventInfoForUnknownUser evt
                             (matches ! nat algIdx) (matches ! nat keyIdx)) s
                    | Some idMatches \<Rightarrow>
                        (let userIdx = SubexpIndex certIDRE idxCertUserID;
                             serialIdx = SubexpIndex certIDRE idxCertSerial;
                             caIdx = SubexpIndex certIDRE idxCertCA;
                             evt1 = evt\<lparr>Subjects :=
                                      (Subjects evt)(''userID'' \<mapsto> idMatches ! nat userIdx)\<rparr>;
                             evt2 = (case extraDataWithCA (matches ! nat algIdx)
                                            (matches ! nat keyIdx) (idMatches ! nat serialIdx)
                                            (idMatches ! nat caIdx) of
                                       Inl ederr \<Rightarrow> evt1
                                     | Inr ed \<Rightarrow> WithData evt1 ed)
                         in writeEvent w evt2 s))))"

definition getCertificateInvalidReason :: "string \<Rightarrow> string" where
  "getCertificateInvalidReason logentry =
     (let prefix = ''Certificate invalid: '';
          prefixLen = length prefix
      in if length logentry \<le> prefixLen then ''unknown reason''
         else drop prefixLen logentry)"

definition processCertificateInvalidEntry ::
  "string \<Rightarrow> string \<Rightarrow> string \<Rightarrow> int \<Rightarrow> string \<Rightarrow> 's EventWriter \<Rightarrow> 's \<Rightarrow> error option \<times> 's" where
  "processCertificateInvalidEntry logentry nodename mid when pid w s =
     (let reason = getCertificateInvalidReason logentry;
          evt0 = WithTarget
                   (NewAuditEvent ActionLoginIdentifier
                      \<lparr>srcType = ''IP'', srcValue = ''unknown'',
                       srcExtra = Some [''port'' \<mapsto> ''unknown'']\<rparr>
                      OutcomeFailed
                      [''loggedAs'' \<mapsto> UnknownUser, ''userID'' \<mapsto> UnknownUser, ''pid'' \<mapsto> pid]
                      ''sshd'')
                   [''host'' \<mapsto> nodename, ''machine-id'' \<mapsto> mid];
          evt = evt0\<lparr>LoggedAt := when\<rparr>;
          evt1 = (case extraDataForInvalidCert reason of
                    Inl ederr \<Rightarrow> evt
                  | Inr ed \<Rightarrow> WithData evt ed)
      in writeEvent w evt1 s)"

definition processNotInAllowUsersEntry ::
  "string \<Rightarrow> string \<Rightarrow> string \<Rightarrow> int \<Rightarrow> string \<Rightarrow> 's EventWriter \<Rightarrow> 's \<Rightarrow> error option \<times> 's" where
  "processNotInAllowUsersEntry logentry nodename mid when pid w s =
     (case FindStringSubmatch notInAllowUsersRE logentry of
        None \<Rightarrow> (None, s)
      | Some matches \<Rightarrow>
          (let usrIdx = SubexpIndex notInAllowUsersRE idxLoginUserName;
               sourceIdx = SubexpIndex notInAllowUsersRE idxLoginSource;
               evt0 = WithTarget
                        (NewAuditEvent ActionLoginIdentifier
                           \<lparr>srcType = ''IP'', srcValue = matches ! nat sourceIdx,
                            srcExtra = None\<rparr>
                           OutcomeFailed
                           [''loggedAs'' \<mapsto> matches ! nat usrIdx, ''userID'' \<mapsto> UnknownUser,
                            ''pid'' \<mapsto> pid]
                           ''sshd'')
                        [''host'' \<mapsto> nodename, ''machine-id'' \<mapsto> mid];
               evt = evt0\<lparr>LoggedAt := when\<rparr>
           in writeEvent w evt s))"

definition processInvalidUserEntry ::
  "string \<Rightarrow> string \<Rightarrow> string \<Rightarrow> int \<Rightarrow> string \<Rightarrow> 's EventWriter \<Rightarrow> 's \<Rightarrow> error option \<times> 's" where
  "processInvalidUserEntry logentry nodename mid when pid w s =
     (case FindStringSubmatch invalidUserRE logentry of
        None \<Rightarrow> (None, s)
      | Some matches \<Rightarrow>
          (let usrIdx = SubexpIndex invalidUserRE idxLoginUserName;
               sourceIdx = SubexpIndex invalidUserRE idxLoginSource;
               portIdx = SubexpIndex invalidUserRE idxLoginPort;
               evt0 = WithTarget
                        (NewAuditEvent ActionLoginIdentifier
                           \<lparr>srcType = ''IP'', srcValue = matches ! nat sourceIdx,
                            srcExtra = Some [''port'' \<mapsto> matches ! nat portIdx]\<rparr>
                           OutcomeFailed
                           [''loggedAs'' \<mapsto> matches ! nat usrIdx, ''userID'' \<mapsto> UnknownUser,
                            ''pid'' \<mapsto> pid]
                           ''sshd'')
                        [''host'' \<mapsto> nodename, ''machine-id'' \<mapsto> mid];
               evt = evt0\<lparr>LoggedAt := when\<rparr>
           in writeEvent w evt s))"

text \<open>The \<open>switch\<close> of \<open>processEntry\<close>: the first case that holds chooses the handler.\<close>

datatype handler = AcceptPublicKey | CertificateInvalid | NotInAllowUsers | InvalidUser

definition entryFunc :: "string \<Rightarrow> handler option" where
  "entryFunc entry =
     (if HasPrefix entry ''Accepted publickey'' then Some AcceptPublicKey
      else if HasPrefix entry ''Certificate invalid'' then Some CertificateInvalid
      else if HasSuffix entry ''not allowed because not listed in AllowUsers''
        then Some NotInAllowUsers
      else if HasPrefix entry ''Invalid user'' then Some InvalidUser
      else None)"

fun runHandler ::
  "handler \<Rightarrow> string \<Rightarrow> string \<Rightarrow> string \<Rightarrow> int \<Rightarrow> string \<Rightarrow> 's EventWriter \<Rightarrow> 's
     \<Rightarrow> error option \<times> 's" where
  "runHandler AcceptPublicKey = processAcceptPublicKeyEntry"
| "runHandler CertificateInvalid = processCertificateInvalidEntry"
| "runHandler NotInAllowUsers = processNotInAllowUsersEntry"
| "runHandler InvalidUser = processInvalidUserEntry"

definition processEntry ::
  "string \<Rightarrow> string \<Rightarrow> string \<Rightarrow> int \<Rightarrow> string \<Rightarrow> 's EventWriter \<Rightarrow> 's \<Rightarrow> error option \<times> 's" where
  "processEntry entry nodename mid ts pid w s =
     (case entryFunc entry of
        Some h \<Rightarrow> runHandler h entry nodename mid ts pid w s
      | None \<Rightarrow> (None, s))"

text \<open>
  Modelled from the spec: the type \<open>types.LogEntry\<close> is declared in the package
  \<open>internal/journald/types\<close>, which is not among the sources. The spec gives an item
  of the journal stream a message, a timestamp in microseconds since the epoch and a pid
  (a string); the consumer reads these three fields and converts the timestamp with
  \<open>int64(usec)\<close>, so it is an unsigned 64-bit integer here.
\<close>

record LogEntry =
  Message :: string
  Timestamp :: "64 word"
  PID :: string

text \<open>
  The loop of \<open>journaldConsumer\<close> waits in a \<open>select\<close> for the context's cancellation
  or the next entry. A run is driven by the sequence of cases the \<open>select\<close> takes:
  \<open>CtxDone\<close>, or \<open>Recv\<close> with the pointer received (\<open>None\<close> for a nil pointer, which a
  closed channel delivers). The result is \<open>Return\<close> with the function's error value,
  \<open>Panicked\<close> (a nil entry is dereferenced) or \<open>Waiting\<close>: the sequence is used up and
  the loop is in its \<open>select\<close>.
\<close>

datatype selected = CtxDone | Recv "LogEntry option"

datatype run = Return "error option" | Panicked | Waiting

fun consumerLoop ::
  "string \<Rightarrow> string \<Rightarrow> selected list \<Rightarrow> 's EventWriter \<Rightarrow> 's \<Rightarrow> run \<times> 's" where
  "consumerLoop nodename mid [] w s = (Waiting, s)"
| "consumerLoop nodename mid (CtxDone # rest) w s = (Return None, s)"
| "consumerLoop nodename mid (Recv None # rest) w s = (Panicked, s)"
| "consumerLoop nodename mid (Recv (Some entry) # rest) w s =
     (let usec = Timestamp entry;
          ts = sint usec;
          pid = PID entry
      in case processEntry (Message entry) nodename mid ts pid w s of
           (Some err, s') \<Rightarrow>
             (Return (Some (Wrap (''failed to process journal entry '' @ [CHR 0x27]
                                    @ Message entry @ [CHR 0x27]) err)), s')
         | (None, s') \<Rightarrow> consumerLoop nodename mid rest w s')"

text \<open>
  \<open>journaldConsumer\<close>, given what \<open>common.GetMachineID\<close> and \<open>common.GetNodeName\<close>
  answer (the second is only called when the first succeeds).
\<close>

definition journaldConsumer ::
  "error + string \<Rightarrow> error + string \<Rightarrow> selected list \<Rightarrow> 's EventWriter \<Rightarrow> 's \<Rightarrow> run \<times> 's" where
  "journaldConsumer GetMachineID GetNodeName sel w s =
     (case GetMachineID of
        Inl miderr \<Rightarrow> (Return (Some (Wrap ''failed to get machine id'' miderr)), s)
      | Inr mid \<Rightarrow>
          (case GetNodeName of
             Inl nodenameerr \<Rightarrow> (Return (Some (Wrap ''failed to get node name'' nodenameerr)), s)
           | Inr nodename \<Rightarrow> consumerLoop nodename mid sel w s))"

text \<open>
  What the parser writes for one journal line when the sink accepts every event: the
  events in the memory sink after \<open>processEntry\<close>, started on the empty sink.
\<close>

definition emitted :: "string \<Rightarrow> string \<Rightarrow> string \<Rightarrow> int \<Rightarrow> string \<Rightarrow> AuditEvent list" where
  "emitted entry nodename mid ts pid =
     snd (processEntry entry nodename mid ts pid memoryWriter [])"

text \<open>The value of one key of an event's extra data, \<open>None\<close> without data or key.\<close>

definition extra :: "string \<Rightarrow> AuditEvent \<Rightarrow> string option" where
  "extra k e = (case Data e of None \<Rightarrow> None | Some d \<Rightarrow> d k)"

text \<open>The value of one key of an event's subjects.\<close>

definition subject :: "string \<Rightarrow> AuditEvent \<Rightarrow> string option" where
  "subject k e = Subjects e k"

section \<open>The generator of the expected metadata (gen-extra-map)\<close>

text \<open>
  \<open>processAuditdEvents\<close> reads the audit log line by line. \<open>auparse.ParseLogLine\<close> and
  the reassembler's \<open>PushMessage\<close> belong to go-libaudit and are parameters: the parser
  answers an error or a message, and pushing a message changes the reassembler's state.
  The \<open>bufio.Scanner\<close> is the list of lines it delivers before \<open>Scan\<close> answers false,
  and the value of \<open>scanner.Err()\<close> then.
\<close>

fun processAuditdEvents ::
  "(string \<Rightarrow> error + 'm) \<Rightarrow> ('m \<Rightarrow> 'r \<Rightarrow> 'r) \<Rightarrow> string list \<Rightarrow> error option \<Rightarrow> 'r
     \<Rightarrow> error option \<times> 'r" where
  "processAuditdEvents ParseLogLine PushMessage [] scannerErr reass = (scannerErr, reass)"
| "processAuditdEvents ParseLogLine PushMessage (line # lines) scannerErr reass =
     (if line = [] then processAuditdEvents ParseLogLine PushMessage lines scannerErr reass
      else case ParseLogLine line of
             Inl err \<Rightarrow> (Some err, reass)
           | Inr auditMsg \<Rightarrow>
               processAuditdEvents ParseLogLine PushMessage lines scannerErr
                 (PushMessage auditMsg reass))"

text \<open>
  A parser and a reassembler for concrete runs: a line is a message when it starts with
  \<open>type=\<close>, and the reassembler keeps the messages pushed, in order.
\<close>

definition headerParser :: "string \<Rightarrow> error + string" where
  "headerParser line =
     (if HasPrefix line ''type='' then Inr line else Inl (Ext ''invalid audit message header''))"

definition keepMessage :: "string \<Rightarrow> string list \<Rightarrow> string list" where
  "keepMessage msg reass = reass @ [msg]"

text \<open>
  The fields of \<open>aucoalesce.Event\<close> (go-libaudit) that the generator reads.
\<close>

record Object =
  objType :: string
  Primary :: string
  Secondary :: string

record Summary =
  Action :: string
  How :: string
  Obj :: Object

record Event =
  Sequence :: "32 word"
  Session :: string
  Summary :: Summary

text \<open>
  \<open>addCaseStatement\<close> appends to the buffer the text of one \<open>case\<close> of the generated
  function: the index, the sequence number in a comment, and the five strings of the
  summary. The text of a case is represented by these seven values.
\<close>

record CaseStatement =
  caseIndex :: nat
  caseSequence :: "32 word"
  caseAction :: string
  caseHow :: string
  caseObjType :: string
  casePrimary :: string
  caseSecondary :: string

definition addCaseStatement :: "nat \<Rightarrow> Event \<Rightarrow> CaseStatement list \<Rightarrow> CaseStatement list" where
  "addCaseStatement i event buf =
     buf @ [\<lparr>caseIndex = i, caseSequence = Sequence event,
              caseAction = Action (Summary event), caseHow = How (Summary event),
              caseObjType = objType (Obj (Summary event)),
              casePrimary = Primary (Obj (Summary event)),
              caseSecondary = Secondary (Obj (Summary event))\<rparr>]"

text \<open>
  The loop \<open>outer\<close> of \<open>mainWithError\<close>, driven by the cases its \<open>select\<close> takes: the
  context is done (with \<open>ctx.Err()\<close>), the line processor is done (with its error
  value), or the reassembler delivers the messages of one event. \<open>only_ids\<close> is the flag
  \<open>-only-ids\<close> (\<open>numberedSessionsOnly\<close>); \<open>CoalesceMessages\<close> and \<open>ResolveIDs\<close>
  belong to go-libaudit and are parameters. The state is the next index \<open>i\<close> and the
  buffer. The index is a Go \<open>int\<close>; it is a natural number here, as a run cannot count
  to the 64-bit limit.
\<close>

datatype 'm generatorSelected = ContextDone error | ProcessorDone "error option" | AuditdEvents 'm

datatype loopExit = LoopReturn error | BreakOuter | LoopWaiting

fun eventLoop ::
  "bool \<Rightarrow> ('m \<Rightarrow> error + Event) \<Rightarrow> (Event \<Rightarrow> Event) \<Rightarrow> 'm generatorSelected list
     \<Rightarrow> nat \<times> CaseStatement list \<Rightarrow> loopExit \<times> nat \<times> CaseStatement list" where
  "eventLoop only_ids CoalesceMessages ResolveIDs [] (i, buf) = (LoopWaiting, i, buf)"
| "eventLoop only_ids CoalesceMessages ResolveIDs (ContextDone ctxErr # rest) (i, buf) =
     (LoopReturn ctxErr, i, buf)"
| "eventLoop only_ids CoalesceMessages ResolveIDs (ProcessorDone (Some err) # rest) (i, buf) =
     (LoopReturn err, i, buf)"
| "eventLoop only_ids CoalesceMessages ResolveIDs (ProcessorDone None # rest) (i, buf) =
     (BreakOuter, i, buf)"
| "eventLoop only_ids CoalesceMessages ResolveIDs (AuditdEvents events # rest) (i, buf) =
     (case CoalesceMessages events of
        Inl err \<Rightarrow> (LoopReturn (Wrap ''failed to coalesce auditd messages'' err), i, buf)
      | Inr auditdEvent \<Rightarrow>
          if only_ids \<and> (Session auditdEvent = [] \<or> Session auditdEvent = ''unset'')
          then eventLoop only_ids CoalesceMessages ResolveIDs rest (i, buf)
          else eventLoop only_ids CoalesceMessages ResolveIDs rest
                 (i + 1, addCaseStatement i (ResolveIDs auditdEvent) buf))"

text \<open>
  The events of a sequence that carry a numbered session, and the case statements of a
  list of events numbered from \<open>i\<close> on.
\<close>

definition numberedSession :: "Event \<Rightarrow> bool" where
  "numberedSession e = (Session e \<noteq> [] \<and> Session e \<noteq> ''unset'')"

fun caseStatements :: "nat \<Rightarrow> Event list \<Rightarrow> CaseStatement list" where
  "caseStatements i [] = []"
| "caseStatements i (e # es) = addCaseStatement i e [] @ caseStatements (i + 1) es"

section \<open>Facts about the matcher and the handlers\<close>

lemmas cls_defs = is_word_def is_alnum_def is_digit_def is_space_def run_len_def HasPrefix_def HasSuffix_def
lemmas re_defs = loginRE_def certIDRE_def notInAllowUsersRE_def invalidUserRE_def
lemmas idx_defs = idxLoginUserName_def idxLoginSource_def idxLoginPort_def idxLoginAlg_def idxSSHKeySum_def idxCertUserID_def idxCertSerial_def idxCertCA_def
lemmas ev_defs = NewAuditEvent_def WithTarget_def WithData_def json_Marshal_def extraDataWithoutCA_def extraDataWithCA_def extraDataForInvalidCert_def addEventInfoForUnknownUser_def

lemma first_down_Some:
  "first_down f n = Some r \<Longrightarrow> \<exists>k. 0 < k \<and> k \<le> n \<and> f k = Some r"
proof (induction n)
  case 0
  then show ?case by simp
next
  case (Suc n)
  show ?case
  proof (cases "f (Suc n)")
    case None
    with Suc.prems have "first_down f n = Some r" by simp
    from Suc.IH[OF this] show ?thesis by (meson le_SucI)
  next
    case (Some a)
    with Suc.prems have "f (Suc n) = Some r" by simp
    then show ?thesis by blast
  qed
qed

lemma match_here_groups:
  "match_here re s = Some (gs, rest) \<Longrightarrow> length gs = length (subexpNames re)"
proof (induction re s arbitrary: gs rest rule: match_here.induct)
  case (1 s)
  then show ?case by simp
next
  case (2 l r s)
  then show ?case by (simp split: if_splits)
next
  case (3 k r s)
  from first_down_Some[OF "3.prems"[simplified]] obtain n where "match_here r (drop n s) = Some (gs, rest)"
    by blast
  from "3.IH"[OF this] show ?case by simp
next
  case (4 nm k r s)
  from first_down_Some[OF "4.prems"[simplified]] obtain n where
    n: "(case match_here r (drop n s) of None \<Rightarrow> None | Some (gs, rest) \<Rightarrow> Some (take n s # gs, rest)) = Some (gs, rest)"
    by blast
  then obtain gs' where g: "match_here r (drop n s) = Some (gs', rest)" "gs = take n s # gs'"
    by (auto split: option.splits)
  from "4.IH"[OF g(1)] g(2) show ?case by simp
qed

lemma match_here_suffix:
  "match_here re s = Some (gs, rest) \<Longrightarrow> \<exists>pre. s = pre @ rest"
proof (induction re s arbitrary: gs rest rule: match_here.induct)
  case (1 s)
  then show ?case by simp
next
  case (2 l r s)
  then have "match_here r (drop (length l) s) = Some (gs, rest)" by (simp split: if_splits)
  from "2.IH"[OF _ this] "2.prems" obtain pre where "drop (length l) s = pre @ rest"
    by (auto split: if_splits)
  then have "s = (take (length l) s @ pre) @ rest"
    by (metis append.assoc append_take_drop_id)
  then show ?case by blast
next
  case (3 k r s)
  from first_down_Some[OF "3.prems"[simplified]] obtain n where "match_here r (drop n s) = Some (gs, rest)"
    by blast
  from "3.IH"[OF this] obtain pre where "drop n s = pre @ rest" by blast
  then have "s = (take n s @ pre) @ rest"
    by (metis append.assoc append_take_drop_id)
  then show ?case by blast
next
  case (4 nm k r s)
  from first_down_Some[OF "4.prems"[simplified]] obtain n where
    n: "(case match_here r (drop n s) of None \<Rightarrow> None | Some (gs, rest) \<Rightarrow> Some (take n s # gs, rest)) = Some (gs, rest)"
    by blast
  then obtain gs' where g: "match_here r (drop n s) = Some (gs', rest)"
    by (auto split: option.splits)
  from "4.IH"[OF g] obtain pre where "drop n s = pre @ rest" by blast
  then have "s = (take n s @ pre) @ rest"
    by (metis append.assoc append_take_drop_id)
  then show ?case by blast
qed

lemma search_Some:
  "search re k s = Some (st, gs, rest) \<Longrightarrow>
     k \<le> st \<and> st - k \<le> length s \<and> match_here re (drop (st - k) s) = Some (gs, rest)"
proof (induction s arbitrary: k)
  case Nil
  then show ?case by (auto split: option.splits)
next
  case (Cons c s)
  show ?case
  proof (cases "match_here re (c # s)")
    case None
    with Cons.prems have "search re (Suc k) s = Some (st, gs, rest)" by simp
    from Cons.IH[OF this] have a: "Suc k \<le> st" "st - Suc k \<le> length s"
      and b: "match_here re (drop (st - Suc k) s) = Some (gs, rest)" by simp_all
    from a have "st - k = Suc (st - Suc k)" by simp
    with a b show ?thesis by simp
  next
    case (Some a)
    with Cons.prems show ?thesis by (auto split: prod.splits)
  qed
qed

lemma search_None_shift: "search re k s = None \<Longrightarrow> search re k' s = None"
  by (induction s arbitrary: k k') (auto split: option.splits)

text \<open>
  A match has one text for the whole match and one for every group, so the handlers'
  reads \<open>matches[i]\<close> at the indices \<open>SubexpIndex\<close> answers are in range.
\<close>

lemma FindStringSubmatch_length:
  assumes "FindStringSubmatch re s = Some ms"
  shows "length ms = Suc (length (subexpNames re))"
proof -
  from assms obtain st gs rest where s: "search re 0 s = Some (st, gs, rest)"
    and ms: "ms = take (length s - st - length rest) (drop st s) # gs"
    by (auto simp: FindStringSubmatch_def split: option.splits)
  from search_Some[OF s] have "match_here re (drop st s) = Some (gs, rest)" by simp
  from match_here_groups[OF this] ms show ?thesis by simp
qed

lemma idx_login: "SubexpIndex loginRE idxLoginUserName = 1" "SubexpIndex loginRE idxLoginSource = 2"
  "SubexpIndex loginRE idxLoginPort = 3" "SubexpIndex loginRE idxLoginAlg = 4" "SubexpIndex loginRE idxSSHKeySum = 5"
  by (simp_all add: SubexpIndex_def re_defs idx_defs)

lemma idx_cert: "SubexpIndex certIDRE idxCertUserID = 1" "SubexpIndex certIDRE idxCertSerial = 2"
  "SubexpIndex certIDRE idxCertCA = 3"
  by (simp_all add: SubexpIndex_def re_defs idx_defs)

lemma idx_allow: "SubexpIndex notInAllowUsersRE idxLoginUserName = 1" "SubexpIndex notInAllowUsersRE idxLoginSource = 2"
  by (simp_all add: SubexpIndex_def re_defs idx_defs)

lemma idx_invalid: "SubexpIndex invalidUserRE idxLoginUserName = 1" "SubexpIndex invalidUserRE idxLoginSource = 2"
  "SubexpIndex invalidUserRE idxLoginPort = 3"
  by (simp_all add: SubexpIndex_def re_defs idx_defs)

lemma writeEvent_memory: "writeEvent memoryWriter e s = (None, s @ [e])"
  by (simp add: writeEvent_def memoryWriter_def)

lemma accept_emitted:
  "processAcceptPublicKeyEntry entry n m ts pid w s =
     (case snd (processAcceptPublicKeyEntry entry n m ts pid memoryWriter []) of
        [] \<Rightarrow> (None, s) | e # es \<Rightarrow> writeEvent w e s)"
  by (simp add: processAcceptPublicKeyEntry_def writeEvent_memory Let_def split: option.splits)

lemma certinvalid_emitted:
  "processCertificateInvalidEntry entry n m ts pid w s =
     (case snd (processCertificateInvalidEntry entry n m ts pid memoryWriter []) of
        [] \<Rightarrow> (None, s) | e # es \<Rightarrow> writeEvent w e s)"
  by (simp add: processCertificateInvalidEntry_def writeEvent_memory Let_def)

lemma notallowed_emitted:
  "processNotInAllowUsersEntry entry n m ts pid w s =
     (case snd (processNotInAllowUsersEntry entry n m ts pid memoryWriter []) of
        [] \<Rightarrow> (None, s) | e # es \<Rightarrow> writeEvent w e s)"
  by (simp add: processNotInAllowUsersEntry_def writeEvent_memory Let_def split: option.splits)

lemma invaliduser_emitted:
  "processInvalidUserEntry entry n m ts pid w s =
     (case snd (processInvalidUserEntry entry n m ts pid memoryWriter []) of
        [] \<Rightarrow> (None, s) | e # es \<Rightarrow> writeEvent w e s)"
  by (simp add: processInvalidUserEntry_def writeEvent_memory Let_def split: option.splits)

lemma processEntry_emitted:
  "processEntry entry n m ts pid w s =
     (case emitted entry n m ts pid of [] \<Rightarrow> (None, s) | e # es \<Rightarrow> writeEvent w e s)"
proof (cases "entryFunc entry")
  case None
  then show ?thesis by (simp add: emitted_def processEntry_def)
next
  case (Some h)
  then show ?thesis
    unfolding emitted_def processEntry_def
    by (cases h)
       (simp_all add: accept_emitted[of entry n m ts pid w s] certinvalid_emitted[of entry n m ts pid w s]
          notallowed_emitted[of entry n m ts pid w s] invaliduser_emitted[of entry n m ts pid w s])
qed

section \<open>C1: the two Accepted-publickey lines of the spec\<close>

lemma login_plain:
  "FindStringSubmatch loginRE
     ''Accepted publickey for alice from 10.0.0.1 port 51234 ssh2: ED25519 SHA256:abc'' =
   Some [''Accepted publickey for alice from 10.0.0.1 port 51234 ssh2: ED25519 SHA256:abc'',
         ''alice'', ''10.0.0.1'', ''51234'', ''ED25519 SHA256'', ''abc'']"
  by (simp add: FindStringSubmatch_def re_defs cls_defs)

lemma login_cert:
  "FindStringSubmatch loginRE
     ''Accepted publickey for alice from 10.0.0.1 port 51234 ssh2: ED25519 SHA256:abc ID alice@example (serial 42) CA ssh-rsa SHA256:ca'' =
   Some [''Accepted publickey for alice from 10.0.0.1 port 51234 ssh2: ED25519 SHA256:abc'',
         ''alice'', ''10.0.0.1'', ''51234'', ''ED25519 SHA256'', ''abc'']"
  by (simp add: FindStringSubmatch_def re_defs cls_defs)

lemma cert_clause:
  "FindStringSubmatch certIDRE ''ID alice@example (serial 42) CA ssh-rsa SHA256:ca'' =
   Some [''ID alice@example (serial 42) CA ssh-rsa SHA256:ca'', ''alice@example'', ''42'',
         ''CA ssh-rsa SHA256:ca'']"
  by (simp add: FindStringSubmatch_def re_defs cls_defs)

lemma emitted_plain:
  "emitted ''Accepted publickey for alice from 10.0.0.1 port 51234 ssh2: ED25519 SHA256:abc''
     n m ts pid =
   [\<lparr>evType = ActionLoginIdentifier, LoggedAt = ts,
      Source = \<lparr>srcType = ''IP'', srcValue = ''10.0.0.1'', srcExtra = Some [''port'' \<mapsto> ''51234'']\<rparr>,
      Outcome = OutcomeSucceeded,
      Subjects = [''loggedAs'' \<mapsto> ''alice'', ''pid'' \<mapsto> pid, ''userID'' \<mapsto> UnknownUser],
      Component = ''sshd'', Target = [''host'' \<mapsto> n, ''machine-id'' \<mapsto> m],
      Data = Some [''Alg'' \<mapsto> ''ED25519 SHA256'', ''SSHKeySum'' \<mapsto> ''abc'']\<rparr>]"
  unfolding emitted_def processEntry_def entryFunc_def
  apply (simp add: HasPrefix_def)
  apply (simp add: processAcceptPublicKeyEntry_def login_plain idx_login writeEvent_memory)
  apply (simp add: ev_defs idx_defs)
  done

lemma emitted_cert:
  "emitted ''Accepted publickey for alice from 10.0.0.1 port 51234 ssh2: ED25519 SHA256:abc ID alice@example (serial 42) CA ssh-rsa SHA256:ca''
     n m ts pid =
   [\<lparr>evType = ActionLoginIdentifier, LoggedAt = ts,
      Source = \<lparr>srcType = ''IP'', srcValue = ''10.0.0.1'', srcExtra = Some [''port'' \<mapsto> ''51234'']\<rparr>,
      Outcome = OutcomeSucceeded,
      Subjects = [''loggedAs'' \<mapsto> ''alice'', ''pid'' \<mapsto> pid, ''userID'' \<mapsto> ''alice@example''],
      Component = ''sshd'', Target = [''host'' \<mapsto> n, ''machine-id'' \<mapsto> m],
      Data = Some [''Alg'' \<mapsto> ''ED25519 SHA256'', ''SSHKeySum'' \<mapsto> ''abc'',
                   ''Serial'' \<mapsto> ''42'', ''CA'' \<mapsto> ''CA ssh-rsa SHA256:ca'']\<rparr>]"
  unfolding emitted_def processEntry_def entryFunc_def
  apply (simp add: HasPrefix_def)
  apply (simp add: processAcceptPublicKeyEntry_def login_cert idx_login writeEvent_memory)
  apply (simp add: cert_clause idx_cert)
  apply (simp add: ev_defs idx_defs writeEvent_memory)
  done

text \<open>
  C1, as the code has it. For the line
  \<open>Accepted publickey for alice from 10.0.0.1 port 51234 ssh2: ED25519 SHA256:abc\<close> the
  parser writes one login event with outcome succeeded, \<open>userID = "unknown"\<close> and the
  extra data exactly \<open>{Alg: "ED25519 SHA256", SSHKeySum: "abc"}\<close>: the group \<open>Alg\<close> is
  \<open>[\w -]+\<close>, which takes the key type and the hash name up to the colon, and the key
  sum is what follows the colon. For the line extended with
  \<open> ID alice@example (serial 42) CA ssh-rsa SHA256:ca\<close> it writes one login event with
  outcome succeeded, \<open>userID = "alice@example"\<close> and the extra data
  \<open>{Alg: "ED25519 SHA256", SSHKeySum: "abc", Serial: "42", CA: "CA ssh-rsa SHA256:ca"}\<close>.
\<close>

theorem C1_accepted_publickey_events:
  "emitted ''Accepted publickey for alice from 10.0.0.1 port 51234 ssh2: ED25519 SHA256:abc''
     n m ts pid =
   [\<lparr>evType = ActionLoginIdentifier, LoggedAt = ts,
      Source = \<lparr>srcType = ''IP'', srcValue = ''10.0.0.1'', srcExtra = Some [''port'' \<mapsto> ''51234'']\<rparr>,
      Outcome = ''succeeded'',
      Subjects = [''loggedAs'' \<mapsto> ''alice'', ''pid'' \<mapsto> pid, ''userID'' \<mapsto> ''unknown''],
      Component = ''sshd'', Target = [''host'' \<mapsto> n, ''machine-id'' \<mapsto> m],
      Data = Some [''Alg'' \<mapsto> ''ED25519 SHA256'', ''SSHKeySum'' \<mapsto> ''abc'']\<rparr>]
   \<and>
   emitted ''Accepted publickey for alice from 10.0.0.1 port 51234 ssh2: ED25519 SHA256:abc ID alice@example (serial 42) CA ssh-rsa SHA256:ca''
     n m ts pid =
   [\<lparr>evType = ActionLoginIdentifier, LoggedAt = ts,
      Source = \<lparr>srcType = ''IP'', srcValue = ''10.0.0.1'', srcExtra = Some [''port'' \<mapsto> ''51234'']\<rparr>,
      Outcome = ''succeeded'',
      Subjects = [''loggedAs'' \<mapsto> ''alice'', ''pid'' \<mapsto> pid, ''userID'' \<mapsto> ''alice@example''],
      Component = ''sshd'', Target = [''host'' \<mapsto> n, ''machine-id'' \<mapsto> m],
      Data = Some [''Alg'' \<mapsto> ''ED25519 SHA256'', ''SSHKeySum'' \<mapsto> ''abc'',
                   ''Serial'' \<mapsto> ''42'', ''CA'' \<mapsto> ''CA ssh-rsa SHA256:ca'']\<rparr>]"
  by (simp add: emitted_plain emitted_cert UnknownUser_def OutcomeSucceeded_def)

text \<open>
  C1 as the spec states it fails: for the first line the algorithm written is
  \<open>"ED25519 SHA256"\<close> and the key sum is \<open>"abc"\<close>, so the extra data is not
  \<open>{alg: "ED25519", ssh_key_sum: "SHA256:abc"}\<close>, under the keys of the code or the keys
  of the spec.
\<close>

theorem C1_counterexample:
  "map (extra ''Alg'')
     (emitted ''Accepted publickey for alice from 10.0.0.1 port 51234 ssh2: ED25519 SHA256:abc''
        ''host1'' ''machine1'' 0 ''4242'') = [Some ''ED25519 SHA256'']
   \<and> map (extra ''SSHKeySum'')
     (emitted ''Accepted publickey for alice from 10.0.0.1 port 51234 ssh2: ED25519 SHA256:abc''
        ''host1'' ''machine1'' 0 ''4242'') = [Some ''abc'']
   \<and> map Data
     (emitted ''Accepted publickey for alice from 10.0.0.1 port 51234 ssh2: ED25519 SHA256:abc''
        ''host1'' ''machine1'' 0 ''4242'')
       \<noteq> [Some [''Alg'' \<mapsto> ''ED25519'', ''SSHKeySum'' \<mapsto> ''SHA256:abc'']]
   \<and> map Data
     (emitted ''Accepted publickey for alice from 10.0.0.1 port 51234 ssh2: ED25519 SHA256:abc''
        ''host1'' ''machine1'' 0 ''4242'')
       \<noteq> [Some [''alg'' \<mapsto> ''ED25519'', ''ssh_key_sum'' \<mapsto> ''SHA256:abc'']]"
proof -
  have a: "[''Alg'' \<mapsto> ''ED25519 SHA256'', ''SSHKeySum'' \<mapsto> ''abc'']
             \<noteq> [''Alg'' \<mapsto> ''ED25519'', ''SSHKeySum'' \<mapsto> ''SHA256:abc'']"
  proof
    assume "[''Alg'' \<mapsto> ''ED25519 SHA256'', ''SSHKeySum'' \<mapsto> ''abc'']
             = [''Alg'' \<mapsto> ''ED25519'', ''SSHKeySum'' \<mapsto> ''SHA256:abc'']"
    then have "[''Alg'' \<mapsto> ''ED25519 SHA256'', ''SSHKeySum'' \<mapsto> ''abc''] ''Alg''
             = [''Alg'' \<mapsto> ''ED25519'', ''SSHKeySum'' \<mapsto> ''SHA256:abc''] ''Alg''"
      by (rule arg_cong)
    then show False by simp
  qed
  have b: "[''Alg'' \<mapsto> ''ED25519 SHA256'', ''SSHKeySum'' \<mapsto> ''abc'']
             \<noteq> [''alg'' \<mapsto> ''ED25519'', ''ssh_key_sum'' \<mapsto> ''SHA256:abc'']"
  proof
    assume "[''Alg'' \<mapsto> ''ED25519 SHA256'', ''SSHKeySum'' \<mapsto> ''abc'']
             = [''alg'' \<mapsto> ''ED25519'', ''ssh_key_sum'' \<mapsto> ''SHA256:abc'']"
    then have "[''Alg'' \<mapsto> ''ED25519 SHA256'', ''SSHKeySum'' \<mapsto> ''abc''] ''Alg''
             = [''alg'' \<mapsto> ''ED25519'', ''ssh_key_sum'' \<mapsto> ''SHA256:abc''] ''Alg''"
      by (rule arg_cong)
    then show False by simp
  qed
  show ?thesis
    by (simp add: emitted_plain extra_def a b)
qed

section \<open>C2: the dispatch of processEntry\<close>

lemmas handler_defs = processAcceptPublicKeyEntry_def processCertificateInvalidEntry_def
  processNotInAllowUsersEntry_def processInvalidUserEntry_def

lemma processEntry_dispatch:
  "processEntry entry n m ts pid w s =
     (if HasPrefix entry ''Accepted publickey''
        then processAcceptPublicKeyEntry entry n m ts pid w s
      else if HasPrefix entry ''Certificate invalid''
        then processCertificateInvalidEntry entry n m ts pid w s
      else if HasSuffix entry ''not allowed because not listed in AllowUsers''
        then processNotInAllowUsersEntry entry n m ts pid w s
      else if HasPrefix entry ''Invalid user''
        then processInvalidUserEntry entry n m ts pid w s
      else (None, s))"
  by (simp add: processEntry_def entryFunc_def)

lemma accept_outcome:
  "e \<in> set (snd (processAcceptPublicKeyEntry entry n m ts pid memoryWriter []))
     \<Longrightarrow> Outcome e = OutcomeSucceeded"
  by (auto simp: processAcceptPublicKeyEntry_def writeEvent_memory ev_defs Let_def
           split: option.splits if_splits)

lemma certinvalid_outcome:
  "e \<in> set (snd (processCertificateInvalidEntry entry n m ts pid memoryWriter []))
     \<Longrightarrow> Outcome e = OutcomeFailed"
  by (auto simp: processCertificateInvalidEntry_def writeEvent_memory ev_defs Let_def)

lemma notallowed_outcome:
  "e \<in> set (snd (processNotInAllowUsersEntry entry n m ts pid memoryWriter []))
     \<Longrightarrow> Outcome e = OutcomeFailed"
  by (auto simp: processNotInAllowUsersEntry_def writeEvent_memory ev_defs Let_def
           split: option.splits)

lemma invaliduser_outcome:
  "e \<in> set (snd (processInvalidUserEntry entry n m ts pid memoryWriter []))
     \<Longrightarrow> Outcome e = OutcomeFailed"
  by (auto simp: processInvalidUserEntry_def writeEvent_memory ev_defs Let_def
           split: option.splits)

lemma emitted_outcome:
  assumes "e \<in> set (emitted entry n m ts pid)"
  shows "Outcome e = (if HasPrefix entry ''Accepted publickey'' then ''succeeded'' else ''failed'')"
  using assms unfolding emitted_def processEntry_dispatch
  by (auto simp: OutcomeSucceeded_def OutcomeFailed_def split: if_splits
           dest: accept_outcome certinvalid_outcome notallowed_outcome invaliduser_outcome)

text \<open>
  C2, as the code has it. \<open>processEntry\<close> gives every line to at most one handler, the
  first of these whose anchor holds: prefix \<open>Accepted publickey\<close> (the only handler that
  writes an event with outcome succeeded), prefix \<open>Certificate invalid\<close>, suffix
  \<open>not allowed because not listed in AllowUsers\<close>, prefix \<open>Invalid user\<close> (their events
  have outcome failed). A line with none of the four anchors writes no event, returns no
  error and leaves the sink as it is, whatever the sink.
\<close>

theorem C2_dispatch_by_anchor:
  "processEntry entry n m ts pid w s =
     (if HasPrefix entry ''Accepted publickey''
        then processAcceptPublicKeyEntry entry n m ts pid w s
      else if HasPrefix entry ''Certificate invalid''
        then processCertificateInvalidEntry entry n m ts pid w s
      else if HasSuffix entry ''not allowed because not listed in AllowUsers''
        then processNotInAllowUsersEntry entry n m ts pid w s
      else if HasPrefix entry ''Invalid user''
        then processInvalidUserEntry entry n m ts pid w s
      else (None, s))
   \<and> (\<not> HasPrefix entry ''Accepted publickey'' \<and> \<not> HasPrefix entry ''Certificate invalid''
        \<and> \<not> HasSuffix entry ''not allowed because not listed in AllowUsers''
        \<and> \<not> HasPrefix entry ''Invalid user''
      \<longrightarrow> processEntry entry n m ts pid w s = (None, s) \<and> emitted entry n m ts pid = [])
   \<and> (\<forall>e \<in> set (emitted entry n m ts pid).
        Outcome e = (if HasPrefix entry ''Accepted publickey'' then ''succeeded'' else ''failed''))"
proof (intro conjI impI ballI)
  show "processEntry entry n m ts pid w s =
     (if HasPrefix entry ''Accepted publickey''
        then processAcceptPublicKeyEntry entry n m ts pid w s
      else if HasPrefix entry ''Certificate invalid''
        then processCertificateInvalidEntry entry n m ts pid w s
      else if HasSuffix entry ''not allowed because not listed in AllowUsers''
        then processNotInAllowUsersEntry entry n m ts pid w s
      else if HasPrefix entry ''Invalid user''
        then processInvalidUserEntry entry n m ts pid w s
      else (None, s))"
    by (rule processEntry_dispatch)
next
  assume a: "\<not> HasPrefix entry ''Accepted publickey'' \<and> \<not> HasPrefix entry ''Certificate invalid''
        \<and> \<not> HasSuffix entry ''not allowed because not listed in AllowUsers''
        \<and> \<not> HasPrefix entry ''Invalid user''"
  then show "processEntry entry n m ts pid w s = (None, s)"
    by (simp add: processEntry_dispatch)
  from a show "emitted entry n m ts pid = []"
    by (simp add: emitted_def processEntry_dispatch)
next
  fix e assume "e \<in> set (emitted entry n m ts pid)"
  then show "Outcome e = (if HasPrefix entry ''Accepted publickey'' then ''succeeded'' else ''failed'')"
    by (rule emitted_outcome)
qed

lemma invalid_user_line:
  "FindStringSubmatch invalidUserRE ''Invalid user eve from 10.0.0.3 port 22000'' =
     Some [''Invalid user eve from 10.0.0.3 port 22000'', ''eve'', ''10.0.0.3'', ''22000'']"
  by (simp add: FindStringSubmatch_def re_defs cls_defs)

lemma emitted_invalid_user:
  "emitted ''Invalid user eve from 10.0.0.3 port 22000'' n m ts pid =
   [\<lparr>evType = ActionLoginIdentifier, LoggedAt = ts,
      Source = \<lparr>srcType = ''IP'', srcValue = ''10.0.0.3'', srcExtra = Some [''port'' \<mapsto> ''22000'']\<rparr>,
      Outcome = OutcomeFailed,
      Subjects = [''loggedAs'' \<mapsto> ''eve'', ''userID'' \<mapsto> UnknownUser, ''pid'' \<mapsto> pid],
      Component = ''sshd'', Target = [''host'' \<mapsto> n, ''machine-id'' \<mapsto> m],
      Data = None\<rparr>]"
  unfolding emitted_def processEntry_dispatch
  apply (simp add: HasPrefix_def HasSuffix_def)
  apply (simp add: processInvalidUserEntry_def invalid_user_line idx_invalid writeEvent_memory)
  apply (simp add: ev_defs)
  done

text \<open>
  C2 at two lines: one with no anchor, which writes nothing, and one of the invalid-user
  shape, whose event has outcome failed.
\<close>

theorem C2_witness:
  "processEntry ''Server listening on 0.0.0.0 port 22.'' ''host1'' ''machine1'' 0 ''4242''
      memoryWriter [] = (None, [])
   \<and> map Outcome (emitted ''Invalid user eve from 10.0.0.3 port 22000''
                     ''host1'' ''machine1'' 0 ''4242'') = [''failed'']"
proof -
  have "processEntry ''Server listening on 0.0.0.0 port 22.'' ''host1'' ''machine1'' 0 ''4242''
      memoryWriter [] = (None, [])"
    using C2_dispatch_by_anchor[of "''Server listening on 0.0.0.0 port 22.''" "''host1''"
        "''machine1''" 0 "''4242''" memoryWriter "[]"]
    by (simp add: HasPrefix_def HasSuffix_def)
  moreover have "map Outcome (emitted ''Invalid user eve from 10.0.0.3 port 22000''
                     ''host1'' ''machine1'' 0 ''4242'') = [''failed'']"
    using C2_dispatch_by_anchor[of "''Invalid user eve from 10.0.0.3 port 22000''" "''host1''"
        "''machine1''" 0 "''4242''" memoryWriter "[]"]
    by (simp add: emitted_invalid_user HasPrefix_def)
  ultimately show ?thesis by simp
qed

text \<open>
  C2 as the spec states it fails: the line \<open>Certificate invalid\<close> has none of the four
  anchors of the spec (the prefixes \<open>Accepted publickey for\<close>, \<open>Certificate invalid:\<close>
  and \<open>Invalid user\<close>, the suffix of AllowUsers), and the parser writes a failure event
  for it.
\<close>

theorem C2_counterexample:
  "\<not> HasPrefix ''Certificate invalid'' ''Accepted publickey for''
   \<and> \<not> HasPrefix ''Certificate invalid'' ''Certificate invalid:''
   \<and> \<not> HasSuffix ''Certificate invalid'' ''not allowed because not listed in AllowUsers''
   \<and> \<not> HasPrefix ''Certificate invalid'' ''Invalid user''
   \<and> map Outcome (emitted ''Certificate invalid'' ''host1'' ''machine1'' 0 ''4242'') = [''failed'']
   \<and> map (extra ''reason'') (emitted ''Certificate invalid'' ''host1'' ''machine1'' 0 ''4242'')
        = [Some ''unknown reason'']"
  by (simp add: HasPrefix_def HasSuffix_def emitted_def processEntry_dispatch
        processCertificateInvalidEntry_def getCertificateInvalidReason_def writeEvent_memory
        ev_defs extra_def OutcomeFailed_def)

section \<open>C5: the reason of an invalid certificate\<close>


lemma prefix_weaken:
  "HasPrefix s (p @ q) \<Longrightarrow> HasPrefix s p"
  unfolding HasPrefix_def
  by (metis append_eq_conv_conj length_append take_take le_add1 min.absorb1 order_trans)





section \<open>C10: failing lookups at startup, cancellation\<close>

lemma consumerLoop_cancel:
  "fst (consumerLoop n m sel w s) = Waiting \<Longrightarrow>
     consumerLoop n m (sel @ CtxDone # later) w s = (Return None, snd (consumerLoop n m sel w s))"
proof (induction sel arbitrary: s)
  case Nil
  then show ?case by simp
next
  case (Cons x sel)
  show ?case
  proof (cases x)
    case CtxDone
    with Cons.prems show ?thesis by simp
  next
    case (Recv received)
    show ?thesis
    proof (cases received)
      case None
      with Recv Cons.prems show ?thesis by simp
    next
      case (Some entry)
      obtain r s' where p:
        "processEntry (Message entry) n m (sint (Timestamp entry)) (PID entry) w s = (r, s')"
        by (cases "processEntry (Message entry) n m (sint (Timestamp entry)) (PID entry) w s")
      show ?thesis
      proof (cases r)
        case None
        with p Recv Some Cons.prems have "fst (consumerLoop n m sel w s') = Waiting" by simp
        from Cons.IH[OF this] p None Recv Some show ?thesis by simp
      next
        case (Some err)
        with p Recv \<open>received = Some entry\<close> Cons.prems show ?thesis by simp
      qed
    qed
  qed
qed

text \<open>
  C10. When the machine-id lookup fails, or it succeeds and the node-name lookup fails,
  \<open>journaldConsumer\<close> returns the wrapped error whatever entries and cancellation wait
  for it, and the sink is as it was: no entry is received and no event written. When the
  \<open>select\<close> takes the context's cancellation, at the first turn of the loop or at any
  later turn at which the loop waits, it returns nil.
\<close>

theorem C10_startup_failure_and_cancellation:
  "journaldConsumer (Inl miderr) GetNodeName sel w s =
     (Return (Some (Wrap ''failed to get machine id'' miderr)), s)
   \<and> journaldConsumer (Inr mid) (Inl nodenameerr) sel w s =
     (Return (Some (Wrap ''failed to get node name'' nodenameerr)), s)
   \<and> journaldConsumer (Inr mid) (Inr nodename) (CtxDone # sel) w s = (Return None, s)
   \<and> (fst (journaldConsumer (Inr mid) (Inr nodename) sel w s) = Waiting \<longrightarrow>
        journaldConsumer (Inr mid) (Inr nodename) (sel @ CtxDone # later) w s =
          (Return None, snd (journaldConsumer (Inr mid) (Inr nodename) sel w s)))"
  by (simp add: journaldConsumer_def consumerLoop_cancel)

lemma processEntry_invalid_user_memory:
  "processEntry ''Invalid user eve from 10.0.0.3 port 22000'' n m ts pid memoryWriter s =
     (None, s @ emitted ''Invalid user eve from 10.0.0.3 port 22000'' n m ts pid)"
  by (simp add: processEntry_emitted[of _ _ _ _ _ memoryWriter] emitted_invalid_user writeEvent_memory)

text \<open>
  C10 at a run with one invalid-user entry: without a machine id nothing is written;
  with both lookups answered the loop waits after the entry, and returns nil when the
  context is cancelled then.
\<close>

theorem C10_witness:
  "journaldConsumer (Inl (Ext ''open /etc/machine-id: no such file'')) (Inr ''host1'')
      [Recv (Some \<lparr>Message = ''Invalid user eve from 10.0.0.3 port 22000'', Timestamp = 0,
                    PID = ''4242''\<rparr>)] memoryWriter [] =
     (Return (Some (Wrap ''failed to get machine id'' (Ext ''open /etc/machine-id: no such file''))), [])
   \<and> fst (journaldConsumer (Inr ''machine1'') (Inr ''host1'')
      [Recv (Some \<lparr>Message = ''Invalid user eve from 10.0.0.3 port 22000'', Timestamp = 0,
                    PID = ''4242''\<rparr>)] memoryWriter []) = Waiting
   \<and> fst (journaldConsumer (Inr ''machine1'') (Inr ''host1'')
      ([Recv (Some \<lparr>Message = ''Invalid user eve from 10.0.0.3 port 22000'', Timestamp = 0,
                    PID = ''4242''\<rparr>)] @ CtxDone # []) memoryWriter []) = Return None"
proof -
  have w: "fst (journaldConsumer (Inr ''machine1'') (Inr ''host1'')
      [Recv (Some \<lparr>Message = ''Invalid user eve from 10.0.0.3 port 22000'', Timestamp = 0,
                    PID = ''4242''\<rparr>)] memoryWriter []) = Waiting"
    by (simp add: journaldConsumer_def processEntry_invalid_user_memory)
  from C10_startup_failure_and_cancellation[of "Ext ''open /etc/machine-id: no such file''"
      "Inr ''host1''"
      "[Recv (Some \<lparr>Message = ''Invalid user eve from 10.0.0.3 port 22000'', Timestamp = 0,
                    PID = ''4242''\<rparr>)]" memoryWriter "[]" "''machine1''" "Ext ''x''" "''host1''" "[]"] w
  show ?thesis by simp
qed

section \<open>C4: no match is passed over, a write failure is fatal\<close>

lemma writeEvent_fails:
  "w e s = (Some err, s') \<Longrightarrow>
     writeEvent w e s = (Some (Wrap ''journaldConsumer: Failed to write event'' err), s')"
  by (simp add: writeEvent_def)

lemma entryFunc_dispatch:
  "entryFunc entry = Some h \<Longrightarrow>
     processEntry entry n m ts pid w s = runHandler h entry n m ts pid w s"
  by (simp add: processEntry_def)

text \<open>
  C4. For every journal entry that \<open>processEntry\<close> gives to a handler with a regular
  expression (accepted public key, not in AllowUsers, invalid user) and whose message
  the expression does not match, the handler returns nil and leaves the sink as it is,
  and the consumer loop goes on with the entries that follow. For every entry for which
  the parser writes an event \<open>e\<close> and the sink's \<open>Write\<close> of \<open>e\<close> returns an error,
  \<open>processEntry\<close> returns that error wrapped, and \<open>journaldConsumer\<close> returns it
  wrapped again, whatever follows the entry: the loop ends there.
\<close>

theorem C4_no_match_continues_write_failure_is_fatal:
  "(entryFunc (Message le) = Some AcceptPublicKey
      \<and> FindStringSubmatch loginRE (Message le) = None \<longrightarrow>
        processAcceptPublicKeyEntry (Message le) n m ts pid w s = (None, s)
        \<and> consumerLoop n m (Recv (Some le) # rest) w s = consumerLoop n m rest w s)
   \<and> (entryFunc (Message le) = Some NotInAllowUsers
      \<and> FindStringSubmatch notInAllowUsersRE (Message le) = None \<longrightarrow>
        processNotInAllowUsersEntry (Message le) n m ts pid w s = (None, s)
        \<and> consumerLoop n m (Recv (Some le) # rest) w s = consumerLoop n m rest w s)
   \<and> (entryFunc (Message le) = Some InvalidUser
      \<and> FindStringSubmatch invalidUserRE (Message le) = None \<longrightarrow>
        processInvalidUserEntry (Message le) n m ts pid w s = (None, s)
        \<and> consumerLoop n m (Recv (Some le) # rest) w s = consumerLoop n m rest w s)
   \<and> (emitted (Message le) n m (sint (Timestamp le)) (PID le) = e # es
      \<and> w e s = (Some err, s') \<longrightarrow>
        processEntry (Message le) n m (sint (Timestamp le)) (PID le) w s =
          (Some (Wrap ''journaldConsumer: Failed to write event'' err), s')
        \<and> journaldConsumer (Inr m) (Inr n) (Recv (Some le) # rest) w s =
          (Return (Some (Wrap (''failed to process journal entry '' @ [CHR 0x27] @ Message le
                               @ [CHR 0x27])
                          (Wrap ''journaldConsumer: Failed to write event'' err))), s'))"
proof (intro conjI impI)
  assume a: "entryFunc (Message le) = Some AcceptPublicKey
      \<and> FindStringSubmatch loginRE (Message le) = None"
  then show "processAcceptPublicKeyEntry (Message le) n m ts pid w s = (None, s)"
    by (simp add: processAcceptPublicKeyEntry_def)
  from a show "consumerLoop n m (Recv (Some le) # rest) w s = consumerLoop n m rest w s"
    by (simp add: entryFunc_dispatch processAcceptPublicKeyEntry_def)
next
  assume a: "entryFunc (Message le) = Some NotInAllowUsers
      \<and> FindStringSubmatch notInAllowUsersRE (Message le) = None"
  then show "processNotInAllowUsersEntry (Message le) n m ts pid w s = (None, s)"
    by (simp add: processNotInAllowUsersEntry_def)
  from a show "consumerLoop n m (Recv (Some le) # rest) w s = consumerLoop n m rest w s"
    by (simp add: entryFunc_dispatch processNotInAllowUsersEntry_def)
next
  assume a: "entryFunc (Message le) = Some InvalidUser
      \<and> FindStringSubmatch invalidUserRE (Message le) = None"
  then show "processInvalidUserEntry (Message le) n m ts pid w s = (None, s)"
    by (simp add: processInvalidUserEntry_def)
  from a show "consumerLoop n m (Recv (Some le) # rest) w s = consumerLoop n m rest w s"
    by (simp add: entryFunc_dispatch processInvalidUserEntry_def)
next
  assume a: "emitted (Message le) n m (sint (Timestamp le)) (PID le) = e # es
      \<and> w e s = (Some err, s')"
  then show p: "processEntry (Message le) n m (sint (Timestamp le)) (PID le) w s =
          (Some (Wrap ''journaldConsumer: Failed to write event'' err), s')"
    by (simp add: processEntry_emitted[of _ _ _ _ _ w s] writeEvent_fails)
  show "journaldConsumer (Inr m) (Inr n) (Recv (Some le) # rest) w s =
          (Return (Some (Wrap (''failed to process journal entry '' @ [CHR 0x27] @ Message le
                               @ [CHR 0x27])
                          (Wrap ''journaldConsumer: Failed to write event'' err))), s')"
    by (simp add: journaldConsumer_def p)
qed

lemma dashed_user_no_match:
  "FindStringSubmatch loginRE
     ''Accepted publickey for build-bot from 10.0.0.1 port 51234 ssh2: ED25519 SHA256:abc'' = None"
  by (simp add: FindStringSubmatch_def re_defs cls_defs)

text \<open>
  C4 at two runs: an accepted-publickey line whose user name has a hyphen (the login
  expression does not match it) is passed over and the loop reaches the cancellation; an
  invalid-user line on a sink that fails ends the run with the error, before the second
  entry.
\<close>

theorem C4_witness:
  "consumerLoop ''host1'' ''machine1''
     [Recv (Some \<lparr>Message = ''Accepted publickey for build-bot from 10.0.0.1 port 51234 ssh2: ED25519 SHA256:abc'',
                   Timestamp = 0, PID = ''4242''\<rparr>), CtxDone] memoryWriter []
     = (Return None, [])
   \<and> journaldConsumer (Inr ''machine1'') (Inr ''host1'')
     [Recv (Some \<lparr>Message = ''Invalid user eve from 10.0.0.3 port 22000'', Timestamp = 0,
                   PID = ''4242''\<rparr>),
      Recv (Some \<lparr>Message = ''Invalid user eve from 10.0.0.3 port 22000'', Timestamp = 0,
                   PID = ''4243''\<rparr>)] brokenWriter []
     = (Return (Some (Wrap (''failed to process journal entry '' @ [CHR 0x27]
                              @ ''Invalid user eve from 10.0.0.3 port 22000'' @ [CHR 0x27])
                       (Wrap ''journaldConsumer: Failed to write event'' (Ext ''sink closed'')))), [])"
proof -
  have a: "entryFunc ''Accepted publickey for build-bot from 10.0.0.1 port 51234 ssh2: ED25519 SHA256:abc''
             = Some AcceptPublicKey"
    by (simp add: entryFunc_def HasPrefix_def)
  have b: "brokenWriter e [] = (Some (Ext ''sink closed''), [])" for e
    by (simp add: brokenWriter_def)
  from C4_no_match_continues_write_failure_is_fatal[of
      "\<lparr>Message = ''Accepted publickey for build-bot from 10.0.0.1 port 51234 ssh2: ED25519 SHA256:abc'',
                   Timestamp = 0, PID = ''4242''\<rparr>" "''host1''" "''machine1''" 0 "''4242''"
      memoryWriter "[]" "[CtxDone]"] a dashed_user_no_match
  have 1: "consumerLoop ''host1'' ''machine1''
     [Recv (Some \<lparr>Message = ''Accepted publickey for build-bot from 10.0.0.1 port 51234 ssh2: ED25519 SHA256:abc'',
                   Timestamp = 0, PID = ''4242''\<rparr>), CtxDone] memoryWriter []
     = (Return None, [])"
    by simp
  from C4_no_match_continues_write_failure_is_fatal[of
      "\<lparr>Message = ''Invalid user eve from 10.0.0.3 port 22000'', Timestamp = 0, PID = ''4242''\<rparr>"
      "''host1''" "''machine1''" 0 "''4242''" brokenWriter "[]" _ _ _ "Ext ''sink closed''" "[]"]
    emitted_invalid_user[of "''host1''" "''machine1''" 0 "''4242''"] b
  have 2: "journaldConsumer (Inr ''machine1'') (Inr ''host1'')
     [Recv (Some \<lparr>Message = ''Invalid user eve from 10.0.0.3 port 22000'', Timestamp = 0,
                   PID = ''4242''\<rparr>),
      Recv (Some \<lparr>Message = ''Invalid user eve from 10.0.0.3 port 22000'', Timestamp = 0,
                   PID = ''4243''\<rparr>)] brokenWriter []
     = (Return (Some (Wrap (''failed to process journal entry '' @ [CHR 0x27]
                              @ ''Invalid user eve from 10.0.0.3 port 22000'' @ [CHR 0x27])
                       (Wrap ''journaldConsumer: Failed to write event'' (Ext ''sink closed'')))), [])"
    by simp
  from 1 2 show ?thesis by simp
qed

section \<open>C9: the fields of every login event\<close>

lemma accept_fields:
  "e \<in> set (snd (processAcceptPublicKeyEntry entry n m ts pid memoryWriter [])) \<Longrightarrow>
     {''userID'', ''loggedAs'', ''pid''} \<subseteq> dom (Subjects e)
     \<and> {''host'', ''machine-id''} \<subseteq> dom (Target e) \<and> evType e = ActionLoginIdentifier"
  by (auto simp: processAcceptPublicKeyEntry_def writeEvent_memory ev_defs Let_def
           split: option.splits if_splits)

lemma certinvalid_fields:
  "e \<in> set (snd (processCertificateInvalidEntry entry n m ts pid memoryWriter [])) \<Longrightarrow>
     {''userID'', ''loggedAs'', ''pid''} \<subseteq> dom (Subjects e)
     \<and> {''host'', ''machine-id''} \<subseteq> dom (Target e) \<and> evType e = ActionLoginIdentifier"
  by (auto simp: processCertificateInvalidEntry_def writeEvent_memory ev_defs Let_def)

lemma notallowed_fields:
  "e \<in> set (snd (processNotInAllowUsersEntry entry n m ts pid memoryWriter [])) \<Longrightarrow>
     {''userID'', ''loggedAs'', ''pid''} \<subseteq> dom (Subjects e)
     \<and> {''host'', ''machine-id''} \<subseteq> dom (Target e) \<and> evType e = ActionLoginIdentifier"
  by (auto simp: processNotInAllowUsersEntry_def writeEvent_memory ev_defs Let_def
           split: option.splits)

lemma invaliduser_fields:
  "e \<in> set (snd (processInvalidUserEntry entry n m ts pid memoryWriter [])) \<Longrightarrow>
     {''userID'', ''loggedAs'', ''pid''} \<subseteq> dom (Subjects e)
     \<and> {''host'', ''machine-id''} \<subseteq> dom (Target e) \<and> evType e = ActionLoginIdentifier"
  by (auto simp: processInvalidUserEntry_def writeEvent_memory ev_defs Let_def
           split: option.splits)

lemma emitted_at_most_one: "length (emitted entry n m ts pid) \<le> 1"
  unfolding emitted_def processEntry_dispatch
  by (auto simp: handler_defs writeEvent_memory Let_def split: option.splits)

lemma recording_is_emitted:
  "snd (processEntry entry n m ts pid (recordingWriter fails) []) = emitted entry n m ts pid"
proof (cases "emitted entry n m ts pid")
  case Nil
  then show ?thesis by (simp add: processEntry_emitted[of _ _ _ _ _ "recordingWriter fails"])
next
  case (Cons e es)
  with emitted_at_most_one[of entry n m ts pid] have "es = []" by simp
  with Cons show ?thesis
    by (simp add: processEntry_emitted[of _ _ _ _ _ "recordingWriter fails"] writeEvent_def
          recordingWriter_def split: option.splits)
qed

text \<open>
  C9. Whatever the sink answers, the events passed to its \<open>Write\<close> for a journal line
  are the events \<open>emitted\<close> for it, and every one of them, for all four shapes, has the
  keys \<open>userID\<close>, \<open>loggedAs\<close> and \<open>pid\<close> in its subjects, the keys \<open>host\<close> and
  \<open>machine-id\<close> in its target, and the type \<open>common.ActionLoginIdentifier\<close>.
\<close>

theorem C9_login_event_fields:
  "snd (processEntry entry n m ts pid (recordingWriter fails) []) = emitted entry n m ts pid
   \<and> (\<forall>e \<in> set (emitted entry n m ts pid).
        {''userID'', ''loggedAs'', ''pid''} \<subseteq> dom (Subjects e)
        \<and> {''host'', ''machine-id''} \<subseteq> dom (Target e)
        \<and> evType e = ActionLoginIdentifier)"
proof (intro conjI ballI)
  show "snd (processEntry entry n m ts pid (recordingWriter fails) []) = emitted entry n m ts pid"
    by (rule recording_is_emitted)
next
  fix e assume "e \<in> set (emitted entry n m ts pid)"
  then have "{''userID'', ''loggedAs'', ''pid''} \<subseteq> dom (Subjects e)
     \<and> {''host'', ''machine-id''} \<subseteq> dom (Target e) \<and> evType e = ActionLoginIdentifier"
    unfolding emitted_def processEntry_dispatch
    by (auto split: if_splits
          dest: accept_fields certinvalid_fields notallowed_fields invaliduser_fields)
  then show "{''userID'', ''loggedAs'', ''pid''} \<subseteq> dom (Subjects e)"
    and "{''host'', ''machine-id''} \<subseteq> dom (Target e)"
    and "evType e = ActionLoginIdentifier"
    by simp_all
qed

lemma allow_users_line:
  "FindStringSubmatch notInAllowUsersRE
     ''User bob from 10.0.0.2 not allowed because not listed in AllowUsers'' =
   Some [''User bob from 10.0.0.2 not allowed because not listed in AllowUsers'', ''bob'',
         ''10.0.0.2'']"
  by (simp add: FindStringSubmatch_def re_defs cls_defs)

lemma emitted_allow_users:
  "emitted ''User bob from 10.0.0.2 not allowed because not listed in AllowUsers'' n m ts pid =
   [\<lparr>evType = ActionLoginIdentifier, LoggedAt = ts,
      Source = \<lparr>srcType = ''IP'', srcValue = ''10.0.0.2'', srcExtra = None\<rparr>,
      Outcome = OutcomeFailed,
      Subjects = [''loggedAs'' \<mapsto> ''bob'', ''userID'' \<mapsto> UnknownUser, ''pid'' \<mapsto> pid],
      Component = ''sshd'', Target = [''host'' \<mapsto> n, ''machine-id'' \<mapsto> m],
      Data = None\<rparr>]"
  unfolding emitted_def processEntry_dispatch
  apply (simp add: HasPrefix_def HasSuffix_def)
  apply (simp add: processNotInAllowUsersEntry_def allow_users_line idx_allow writeEvent_memory)
  apply (simp add: ev_defs)
  done

text \<open>
  C9 at the line \<open>User bob from 10.0.0.2 not allowed because not listed in AllowUsers\<close>:
  one event is written, with the five keys and the login type.
\<close>

theorem C9_witness:
  "map (\<lambda>e. (Subjects e ''userID'', Subjects e ''loggedAs'', Subjects e ''pid'',
              Target e ''host'', Target e ''machine-id'', evType e))
     (emitted ''User bob from 10.0.0.2 not allowed because not listed in AllowUsers''
        ''host1'' ''machine1'' 0 ''4242'')
   = [(Some ''unknown'', Some ''bob'', Some ''4242'', Some ''host1'', Some ''machine1'',
       ActionLoginIdentifier)]
   \<and> list_all (\<lambda>e. {''userID'', ''loggedAs'', ''pid''} \<subseteq> dom (Subjects e)
                  \<and> {''host'', ''machine-id''} \<subseteq> dom (Target e)
                  \<and> evType e = ActionLoginIdentifier)
     (emitted ''User bob from 10.0.0.2 not allowed because not listed in AllowUsers''
        ''host1'' ''machine1'' 0 ''4242'')"
proof -
  have 1: "map (\<lambda>e. (Subjects e ''userID'', Subjects e ''loggedAs'', Subjects e ''pid'',
              Target e ''host'', Target e ''machine-id'', evType e))
     (emitted ''User bob from 10.0.0.2 not allowed because not listed in AllowUsers''
        ''host1'' ''machine1'' 0 ''4242'')
   = [(Some ''unknown'', Some ''bob'', Some ''4242'', Some ''host1'', Some ''machine1'',
       ActionLoginIdentifier)]"
    by (simp add: emitted_allow_users UnknownUser_def)
  from C9_login_event_fields[of "''User bob from 10.0.0.2 not allowed because not listed in AllowUsers''"
      "''host1''" "''machine1''" 0 "''4242''"]
  have 2: "list_all (\<lambda>e. {''userID'', ''loggedAs'', ''pid''} \<subseteq> dom (Subjects e)
                  \<and> {''host'', ''machine-id''} \<subseteq> dom (Target e)
                  \<and> evType e = ActionLoginIdentifier)
     (emitted ''User bob from 10.0.0.2 not allowed because not listed in AllowUsers''
        ''host1'' ''machine1'' 0 ''4242'')"
    unfolding list_all_iff by blast
  from 1 2 show ?thesis by simp
qed

section \<open>C3: an accepted public key without a certificate clause\<close>

lemma search_at_start:
  "search re 0 s = Some (0, gs, rest) \<Longrightarrow> match_here re s = Some (gs, rest)"
  using search_Some[of re 0 s 0 gs rest] by simp

lemma FindStringSubmatch_tail_None:
  assumes "FindStringSubmatch re (c # s) = None"
  shows "FindStringSubmatch re s = None"
proof -
  from assms have "search re 0 (c # s) = None"
    by (auto simp: FindStringSubmatch_def split: option.splits)
  then have "search re (Suc 0) s = None"
    by (auto split: option.splits)
  then have "search re 0 s = None" by (rule search_None_shift)
  then show ?thesis by (simp add: FindStringSubmatch_def)
qed

lemma login_match_prefix:
  "match_here loginRE s = Some (gs, rest) \<Longrightarrow> HasPrefix s ''Accepted publickey''"
proof -
  assume "match_here loginRE s = Some (gs, rest)"
  then have "HasPrefix s (''Accepted publickey'' @ '' for '')"
    by (simp add: loginRE_def split: if_splits)
  then show ?thesis by (rule prefix_weaken)
qed

text \<open>
  Where the login expression matches from the first byte of the line: when nothing is
  left after the match, or what is left does not match the certificate expression, one
  login event is written, with \<open>userID = "unknown"\<close> and the extra data of the
  algorithm and the key sum only.
\<close>

lemma accepted_without_certificate:
  assumes idx: "FindStringIndex loginRE line = Some (0, en)"
    and nocert: "drop en line = [] \<or> FindStringSubmatch certIDRE (drop en line) = None"
  shows "\<exists>ms. FindStringSubmatch loginRE line = Some ms \<and>
           emitted line n m ts pid =
             [\<lparr>evType = ActionLoginIdentifier, LoggedAt = ts,
               Source = \<lparr>srcType = ''IP'', srcValue = ms ! 2,
                         srcExtra = Some [''port'' \<mapsto> ms ! 3]\<rparr>,
               Outcome = OutcomeSucceeded,
               Subjects = [''loggedAs'' \<mapsto> ms ! 1, ''pid'' \<mapsto> pid,
                           ''userID'' \<mapsto> UnknownUser],
               Component = ''sshd'', Target = [''host'' \<mapsto> n, ''machine-id'' \<mapsto> m],
               Data = Some [''Alg'' \<mapsto> ms ! 4, ''SSHKeySum'' \<mapsto> ms ! 5]\<rparr>]"
proof -
  from idx obtain gs rest where s: "search loginRE 0 line = Some (0, gs, rest)"
    and en: "en = length line - length rest"
    by (auto simp: FindStringIndex_def split: option.splits)
  from search_at_start[OF s] have mh: "match_here loginRE line = Some (gs, rest)" .
  from match_here_suffix[OF mh] obtain pre where line: "line = pre @ rest" by blast
  from en line have en': "en = length pre" by simp
  from login_match_prefix[OF mh] have pfx: "HasPrefix line ''Accepted publickey''" .
  let ?ms = "pre # gs"
  from s line have fs: "FindStringSubmatch loginRE line = Some ?ms"
    by (simp add: FindStringSubmatch_def)
  have rest_drop: "drop en line = rest" using line en' by simp
  have ev: "emitted line n m ts pid =
      snd (processAcceptPublicKeyEntry line n m ts pid memoryWriter [])"
    using pfx by (simp add: emitted_def processEntry_dispatch)
  show ?thesis
  proof (cases "rest = []")
    case True
    with line have "length line = length pre" by simp
    then have "emitted line n m ts pid =
             [\<lparr>evType = ActionLoginIdentifier, LoggedAt = ts,
               Source = \<lparr>srcType = ''IP'', srcValue = ?ms ! 2,
                         srcExtra = Some [''port'' \<mapsto> ?ms ! 3]\<rparr>,
               Outcome = OutcomeSucceeded,
               Subjects = [''loggedAs'' \<mapsto> ?ms ! 1, ''pid'' \<mapsto> pid,
                           ''userID'' \<mapsto> UnknownUser],
               Component = ''sshd'', Target = [''host'' \<mapsto> n, ''machine-id'' \<mapsto> m],
               Data = Some [''Alg'' \<mapsto> ?ms ! 4, ''SSHKeySum'' \<mapsto> ?ms ! 5]\<rparr>]"
      unfolding ev
      by (simp add: processAcceptPublicKeyEntry_def fs idx_login idx_login[unfolded idx_defs]
            writeEvent_memory ev_defs idxLoginAlg_def idxSSHKeySum_def)
    with fs show ?thesis by blast
  next
    case False
    then obtain c r where rest: "rest = c # r" by (cases rest) auto
    with nocert rest_drop have "FindStringSubmatch certIDRE (c # r) = None" by simp
    then have "FindStringSubmatch certIDRE r = None" by (rule FindStringSubmatch_tail_None)
    moreover have "drop (Suc (length pre)) line = r" using line rest by simp
    moreover have "length line \<noteq> length pre" using line rest by simp
    ultimately have "emitted line n m ts pid =
             [\<lparr>evType = ActionLoginIdentifier, LoggedAt = ts,
               Source = \<lparr>srcType = ''IP'', srcValue = ?ms ! 2,
                         srcExtra = Some [''port'' \<mapsto> ?ms ! 3]\<rparr>,
               Outcome = OutcomeSucceeded,
               Subjects = [''loggedAs'' \<mapsto> ?ms ! 1, ''pid'' \<mapsto> pid,
                           ''userID'' \<mapsto> UnknownUser],
               Component = ''sshd'', Target = [''host'' \<mapsto> n, ''machine-id'' \<mapsto> m],
               Data = Some [''Alg'' \<mapsto> ?ms ! 4, ''SSHKeySum'' \<mapsto> ?ms ! 5]\<rparr>]"
      unfolding ev
      by (simp add: processAcceptPublicKeyEntry_def fs idx_login idx_login[unfolded idx_defs]
            writeEvent_memory ev_defs idxLoginAlg_def idxSSHKeySum_def)
    with fs show ?thesis by blast
  qed
qed

lemma embedded_login_index:
  "FindStringIndex loginRE
     ''Accepted publickey for foo-bar from 10.0.0.1 port 51234 ssh2: ED25519-CERT SHA256:abc ID mallory (serial 7) CA Accepted publickey for a from b port 1 ssh2: R:k''
   = Some (111, 159)"
  by (simp add: FindStringIndex_def re_defs cls_defs)

lemma embedded_login_match:
  "FindStringSubmatch loginRE
     ''Accepted publickey for foo-bar from 10.0.0.1 port 51234 ssh2: ED25519-CERT SHA256:abc ID mallory (serial 7) CA Accepted publickey for a from b port 1 ssh2: R:k''
   = Some [''Accepted publickey for a from b port 1 ssh2: R:k'', ''a'', ''b'', ''1'', ''R'', ''k'']"
  by (simp add: FindStringSubmatch_def re_defs cls_defs)

lemma embedded_cert_match:
  "FindStringSubmatch certIDRE
     (drop 49 ''Accepted publickey for foo-bar from 10.0.0.1 port 51234 ssh2: ED25519-CERT SHA256:abc ID mallory (serial 7) CA Accepted publickey for a from b port 1 ssh2: R:k'')
   = Some [''ID mallory (serial 7) CA Accepted publickey for a from b port 1 ssh2: R:k'',
           ''mallory'', ''7'', ''CA Accepted publickey for a from b port 1 ssh2: R:k'']"
  by (simp add: FindStringSubmatch_def re_defs cls_defs)

text \<open>
  C3 at a line where the login expression matches later than the first byte. The line
  starts with \<open>Accepted publickey for foo-bar\<close>, where the expression fails at the
  hyphen, and ends with a second login text, which is the leftmost match: bytes 111 to
  159, the end of the line, so that nothing is left after the match. The handler takes
  the bytes from \<open>len(matches[0]) + 1 = 49\<close> on as the certificate clause, finds
  \<open>ID mallory (serial 7) CA ...\<close> there, before the match, and writes the login of
  account \<open>a\<close> with \<open>userID = "mallory"\<close>, a serial and a CA, where C3 has
  \<open>userID = "unknown"\<close> and neither serial nor CA.
\<close>

theorem C3_match_not_at_start:
  "FindStringIndex loginRE
     ''Accepted publickey for foo-bar from 10.0.0.1 port 51234 ssh2: ED25519-CERT SHA256:abc ID mallory (serial 7) CA Accepted publickey for a from b port 1 ssh2: R:k''
     = Some (111, 159)
   \<and> drop 159
     ''Accepted publickey for foo-bar from 10.0.0.1 port 51234 ssh2: ED25519-CERT SHA256:abc ID mallory (serial 7) CA Accepted publickey for a from b port 1 ssh2: R:k''
     = []
   \<and> map (subject ''userID'') (emitted
     ''Accepted publickey for foo-bar from 10.0.0.1 port 51234 ssh2: ED25519-CERT SHA256:abc ID mallory (serial 7) CA Accepted publickey for a from b port 1 ssh2: R:k''
     ''host1'' ''machine1'' 0 ''4242'') = [Some ''mallory'']
   \<and> map (subject ''loggedAs'') (emitted
     ''Accepted publickey for foo-bar from 10.0.0.1 port 51234 ssh2: ED25519-CERT SHA256:abc ID mallory (serial 7) CA Accepted publickey for a from b port 1 ssh2: R:k''
     ''host1'' ''machine1'' 0 ''4242'') = [Some ''a'']
   \<and> map (extra ''Serial'') (emitted
     ''Accepted publickey for foo-bar from 10.0.0.1 port 51234 ssh2: ED25519-CERT SHA256:abc ID mallory (serial 7) CA Accepted publickey for a from b port 1 ssh2: R:k''
     ''host1'' ''machine1'' 0 ''4242'') = [Some ''7'']
   \<and> map (extra ''CA'') (emitted
     ''Accepted publickey for foo-bar from 10.0.0.1 port 51234 ssh2: ED25519-CERT SHA256:abc ID mallory (serial 7) CA Accepted publickey for a from b port 1 ssh2: R:k''
     ''host1'' ''machine1'' 0 ''4242'') = [Some ''CA Accepted publickey for a from b port 1 ssh2: R:k'']"
proof -
  have e: "emitted
     ''Accepted publickey for foo-bar from 10.0.0.1 port 51234 ssh2: ED25519-CERT SHA256:abc ID mallory (serial 7) CA Accepted publickey for a from b port 1 ssh2: R:k''
     n m ts pid =
     [\<lparr>evType = ActionLoginIdentifier, LoggedAt = ts,
      Source = \<lparr>srcType = ''IP'', srcValue = ''b'', srcExtra = Some [''port'' \<mapsto> ''1'']\<rparr>,
      Outcome = OutcomeSucceeded,
      Subjects = [''loggedAs'' \<mapsto> ''a'', ''pid'' \<mapsto> pid, ''userID'' \<mapsto> ''mallory''],
      Component = ''sshd'', Target = [''host'' \<mapsto> n, ''machine-id'' \<mapsto> m],
      Data = Some [''Alg'' \<mapsto> ''R'', ''SSHKeySum'' \<mapsto> ''k'', ''Serial'' \<mapsto> ''7'',
                   ''CA'' \<mapsto> ''CA Accepted publickey for a from b port 1 ssh2: R:k'']\<rparr>]"
    for n m ts pid
    unfolding emitted_def processEntry_dispatch
    apply (simp add: HasPrefix_def)
    apply (simp add: processAcceptPublicKeyEntry_def embedded_login_match idx_login writeEvent_memory)
    apply (simp add: embedded_cert_match[simplified] idx_cert)
    apply (simp add: ev_defs idx_defs writeEvent_memory)
    done
  show ?thesis
    by (simp add: embedded_login_index e subject_def extra_def)
qed

section \<open>C6: empty lines and parse failures of the line loop\<close>

lemma processAuditdEvents_filter:
  "processAuditdEvents P Q lines scanErr r =
     processAuditdEvents P Q (filter (\<lambda>l. l \<noteq> []) lines) scanErr r"
  by (induction lines arbitrary: r) (auto split: sum.splits)

lemma processAuditdEvents_stops:
  assumes "\<forall>l \<in> set pre. l = [] \<or> (\<exists>msg. P l = Inr msg)"
    and "line \<noteq> []" and "P line = Inl err"
  shows "processAuditdEvents P Q (pre @ line # rest) scanErr r =
           (Some err, snd (processAuditdEvents P Q pre None r))"
  using assms
proof (induction pre arbitrary: r)
  case Nil
  then show ?case by simp
next
  case (Cons l pre)
  show ?case
  proof (cases "l = []")
    case True
    with Cons show ?thesis by simp
  next
    case False
    with Cons.prems obtain msg where "P l = Inr msg" by auto
    with False Cons show ?thesis by simp
  qed
qed

text \<open>
  C6. In the loop of \<open>processAuditdEvents\<close> an empty line is skipped: the run is the
  run on the lines without it, so the empty lines add no message and no error. When the
  parse of a non-empty line fails, after lines that were empty or parsed, the loop
  returns that error at once: the result is the error and the reassembler as the lines
  before left it, whatever lines follow and whatever the scanner would report.
\<close>

theorem C6_empty_lines_skipped_parse_failure_fatal:
  "processAuditdEvents P Q ([] # lines) scanErr r = processAuditdEvents P Q lines scanErr r
   \<and> processAuditdEvents P Q lines scanErr r =
       processAuditdEvents P Q (filter (\<lambda>l. l \<noteq> []) lines) scanErr r
   \<and> ((\<forall>l \<in> set pre. l = [] \<or> (\<exists>msg. P l = Inr msg)) \<and> line \<noteq> [] \<and> P line = Inl err
        \<longrightarrow> processAuditdEvents P Q (pre @ line # rest) scanErr r =
              (Some err, snd (processAuditdEvents P Q pre None r)))"
  using processAuditdEvents_filter[of P Q lines scanErr r]
    processAuditdEvents_stops[of pre P line err Q rest scanErr r]
  by simp

text \<open>
  C6 at four lines: an empty line, a record, a line that is no record, and a record that
  is never pushed.
\<close>

theorem C6_witness:
  "processAuditdEvents headerParser keepMessage
     ([[], ''type=LOGIN msg=audit(1.0:1): ses=3''] @ ''garbage''
        # [''type=USER_END msg=audit(1.0:2): ses=3'']) None []
   = (Some (Ext ''invalid audit message header''), [''type=LOGIN msg=audit(1.0:1): ses=3''])"
proof -
  have p: "headerParser ''type=LOGIN msg=audit(1.0:1): ses=3''
             = Inr ''type=LOGIN msg=audit(1.0:1): ses=3''"
    by (simp add: headerParser_def HasPrefix_def)
  have g: "headerParser ''garbage'' = Inl (Ext ''invalid audit message header'')"
    by (simp add: headerParser_def HasPrefix_def)
  have h: "\<forall>l \<in> set [[], ''type=LOGIN msg=audit(1.0:1): ses=3''].
             l = [] \<or> (\<exists>msg. headerParser l = Inr msg)"
    using p by simp
  from C6_empty_lines_skipped_parse_failure_fatal[where P = headerParser and Q = keepMessage
      and lines = "[]" and scanErr = None and r = "[]"
      and pre = "[[], ''type=LOGIN msg=audit(1.0:1): ses=3'']" and line = "''garbage''"
      and err = "Ext ''invalid audit message header''"
      and rest = "[''type=USER_END msg=audit(1.0:2): ses=3'']"]
    h g
  have "processAuditdEvents headerParser keepMessage
     ([[], ''type=LOGIN msg=audit(1.0:1): ses=3''] @ ''garbage''
        # [''type=USER_END msg=audit(1.0:2): ses=3'']) None []
     = (Some (Ext ''invalid audit message header''),
        snd (processAuditdEvents headerParser keepMessage
               [[], ''type=LOGIN msg=audit(1.0:1): ses=3''] None []))"
    by blast
  then show ?thesis
    by (simp add: p keepMessage_def)
qed

section \<open>C7: the session filter of the generator\<close>

lemma addCaseStatement_append:
  "addCaseStatement i e buf = buf @ addCaseStatement i e []"
  by (simp add: addCaseStatement_def)

lemma eventLoop_only_ids:
  assumes "\<forall>ev \<in> set evs. CoalesceMessages ev = Inr (coalesced ev)"
  shows "eventLoop True CoalesceMessages ResolveIDs (map AuditdEvents evs) (i, buf) =
           (LoopWaiting, i + length (filter numberedSession (map coalesced evs)),
            buf @ caseStatements i (map ResolveIDs (filter numberedSession (map coalesced evs))))"
  using assms
proof (induction evs arbitrary: i buf)
  case Nil
  then show ?case by simp
next
  case (Cons ev evs)
  then have c: "CoalesceMessages ev = Inr (coalesced ev)"
    and r: "\<forall>ev \<in> set evs. CoalesceMessages ev = Inr (coalesced ev)" by simp_all
  show ?case
  proof (cases "numberedSession (coalesced ev)")
    case True
    then show ?thesis
      using c Cons.IH[OF r, of "i + 1" "addCaseStatement i (ResolveIDs (coalesced ev)) buf"]
      by (simp add: numberedSession_def addCaseStatement_append[of i _ buf])
  next
    case False
    then show ?thesis
      using c Cons.IH[OF r, of i buf]
      by (auto simp: numberedSession_def)
  qed
qed

lemma eventLoop_all:
  assumes "\<forall>ev \<in> set evs. CoalesceMessages ev = Inr (coalesced ev)"
  shows "eventLoop False CoalesceMessages ResolveIDs (map AuditdEvents evs) (i, buf) =
           (LoopWaiting, i + length evs,
            buf @ caseStatements i (map ResolveIDs (map coalesced evs)))"
  using assms
proof (induction evs arbitrary: i buf)
  case Nil
  then show ?case by simp
next
  case (Cons ev evs)
  then have c: "CoalesceMessages ev = Inr (coalesced ev)"
    and r: "\<forall>ev \<in> set evs. CoalesceMessages ev = Inr (coalesced ev)" by simp_all
  show ?case
    using c Cons.IH[OF r, of "i + 1" "addCaseStatement i (ResolveIDs (coalesced ev)) buf"]
    by (simp add: addCaseStatement_append[of i _ buf])
qed

text \<open>
  C7, as the code has it. The filter is behind the flag \<open>-only-ids\<close>. For every
  sequence of events that coalesce: with the flag, the events whose session is empty or
  \<open>unset\<close> add no case and take no index, and the others are kept in order under
  consecutive indices; without the flag every event is kept.
\<close>

theorem C7_session_filter_under_only_ids:
  "(\<forall>ev \<in> set evs. CoalesceMessages ev = Inr (coalesced ev)) \<longrightarrow>
     eventLoop True CoalesceMessages ResolveIDs (map AuditdEvents evs) (i, buf) =
       (LoopWaiting, i + length (filter numberedSession (map coalesced evs)),
        buf @ caseStatements i (map ResolveIDs (filter numberedSession (map coalesced evs))))
     \<and> eventLoop False CoalesceMessages ResolveIDs (map AuditdEvents evs) (i, buf) =
       (LoopWaiting, i + length evs,
        buf @ caseStatements i (map ResolveIDs (map coalesced evs)))"
  using eventLoop_only_ids[of evs CoalesceMessages coalesced ResolveIDs i buf]
    eventLoop_all[of evs CoalesceMessages coalesced ResolveIDs i buf]
  by simp

text \<open>
  C7 at four events with the flag set: the two events of session 3 get the indices 0 and
  1, the event of session \<open>unset\<close> and the event without session get none.
\<close>

theorem C7_witness:
  "eventLoop True Inr id
     (map AuditdEvents
        [\<lparr>Sequence = 499, Session = ''3'',
          Summary = \<lparr>Action = ''logged-in'', How = ''/usr/sbin/sshd'',
                     Obj = \<lparr>objType = ''user-session'', Primary = ''ssh'', Secondary = ''127.0.0.1''\<rparr>\<rparr>\<rparr>,
         \<lparr>Sequence = 500, Session = ''unset'',
          Summary = \<lparr>Action = ''ran-command'', How = ''cron'',
                     Obj = \<lparr>objType = ''process'', Primary = ''run-parts'', Secondary = []\<rparr>\<rparr>\<rparr>,
         \<lparr>Sequence = 501, Session = [],
          Summary = \<lparr>Action = ''ran-command'', How = ''cron'',
                     Obj = \<lparr>objType = ''process'', Primary = ''run-parts'', Secondary = []\<rparr>\<rparr>\<rparr>,
         \<lparr>Sequence = 502, Session = ''3'',
          Summary = \<lparr>Action = ''disposed-credentials'', How = ''/usr/sbin/sshd'',
                     Obj = \<lparr>objType = ''user-session'', Primary = ''ssh'', Secondary = ''127.0.0.1''\<rparr>\<rparr>\<rparr>])
     (0, [])
   = (LoopWaiting, 2,
      [\<lparr>caseIndex = 0, caseSequence = 499, caseAction = ''logged-in'', caseHow = ''/usr/sbin/sshd'',
        caseObjType = ''user-session'', casePrimary = ''ssh'', caseSecondary = ''127.0.0.1''\<rparr>,
       \<lparr>caseIndex = 1, caseSequence = 502, caseAction = ''disposed-credentials'',
        caseHow = ''/usr/sbin/sshd'',
        caseObjType = ''user-session'', casePrimary = ''ssh'', caseSecondary = ''127.0.0.1''\<rparr>])"
  using C7_session_filter_under_only_ids[of
        "[\<lparr>Sequence = 499, Session = ''3'',
          Summary = \<lparr>Action = ''logged-in'', How = ''/usr/sbin/sshd'',
                     Obj = \<lparr>objType = ''user-session'', Primary = ''ssh'', Secondary = ''127.0.0.1''\<rparr>\<rparr>\<rparr>,
         \<lparr>Sequence = 500, Session = ''unset'',
          Summary = \<lparr>Action = ''ran-command'', How = ''cron'',
                     Obj = \<lparr>objType = ''process'', Primary = ''run-parts'', Secondary = []\<rparr>\<rparr>\<rparr>,
         \<lparr>Sequence = 501, Session = [],
          Summary = \<lparr>Action = ''ran-command'', How = ''cron'',
                     Obj = \<lparr>objType = ''process'', Primary = ''run-parts'', Secondary = []\<rparr>\<rparr>\<rparr>,
         \<lparr>Sequence = 502, Session = ''3'',
          Summary = \<lparr>Action = ''disposed-credentials'', How = ''/usr/sbin/sshd'',
                     Obj = \<lparr>objType = ''user-session'', Primary = ''ssh'', Secondary = ''127.0.0.1''\<rparr>\<rparr>\<rparr>]"
        Inr id id 0 "[]"]
  by (simp add: numberedSession_def addCaseStatement_def del: eventLoop.simps)

text \<open>
  C7 as the spec states it fails: without the flag, an event of session \<open>unset\<close> is
  kept, with a case and the index 0.
\<close>

theorem C7_counterexample:
  "eventLoop False Inr id
     [AuditdEvents
        \<lparr>Sequence = 500, Session = ''unset'',
          Summary = \<lparr>Action = ''ran-command'', How = ''cron'',
                     Obj = \<lparr>objType = ''process'', Primary = ''run-parts'', Secondary = []\<rparr>\<rparr>\<rparr>]
     (0, [])
   = (LoopWaiting, 1,
      [\<lparr>caseIndex = 0, caseSequence = 500, caseAction = ''ran-command'', caseHow = ''cron'',
        caseObjType = ''process'', casePrimary = ''run-parts'', caseSecondary = []\<rparr>])"
  by (simp add: addCaseStatement_def)

end
